theory Spec2Isabelle
  imports Main "HOL-Library.Sublist"
begin

section \<open>JavaScript strings\<close>

text \<open>
  Strings are lists of code units; a \<^typ>\<open>char\<close> stands for a code unit below 256.
  The string methods the plugin calls are \<open>startsWith\<close>, \<open>endsWith\<close>, \<open>includes\<close>
  and \<open>replace\<close>.
\<close>

type_synonym path = string

definition startsWith :: "string \<Rightarrow> string \<Rightarrow> bool" where
  "startsWith s p = prefix p s"

definition endsWith :: "string \<Rightarrow> string \<Rightarrow> bool" where
  "endsWith s p = suffix p s"

text \<open>\<open>strip_prefix p s\<close> is what follows \<open>p\<close> when \<open>s\<close> starts with \<open>p\<close>.\<close>

fun strip_prefix :: "string \<Rightarrow> string \<Rightarrow> string option" where
  "strip_prefix [] s = Some s"
| "strip_prefix (p # ps) [] = None"
| "strip_prefix (p # ps) (c # cs) = (if p = c then strip_prefix ps cs else None)"

text \<open>
  \<open>find_sub p s\<close> splits \<open>s\<close> around the leftmost occurrence of the literal \<open>p\<close>: the text
  before it and the text after it.
\<close>

fun find_sub :: "string \<Rightarrow> string \<Rightarrow> (string \<times> string) option" where
  "find_sub p [] = (if p = [] then Some ([], []) else None)"
| "find_sub p (c # cs) =
     (case strip_prefix p (c # cs) of
        Some r \<Rightarrow> Some ([], r)
      | None \<Rightarrow> map_option (\<lambda>(a, b). (c # a, b)) (find_sub p cs))"

definition includes_str :: "string \<Rightarrow> string \<Rightarrow> bool" where
  "includes_str s p = (find_sub p s \<noteq> None)"

text \<open>
  \<open>GetSubstitution\<close> of ECMAScript for a match without capture groups: in a replacement
  \<^emph>\<open>string\<close>, \<open>$$\<close> stands for a dollar sign, \<open>$&\<close> for the matched text, \<open>$`\<close> for the
  text before the match and \<open>$'\<close> for the text after it; a dollar sign followed by
  anything else (also a digit or \<open><\<close>, as there is no group) stands for itself.
\<close>

fun GetSubstitution :: "string \<Rightarrow> string \<Rightarrow> string \<Rightarrow> string \<Rightarrow> string" where
  "GetSubstitution matched preceding following [] = []"
| "GetSubstitution matched preceding following [c] = [c]"
| "GetSubstitution matched preceding following (c # d # r) =
     (if c = CHR ''$'' then
        (if d = CHR ''$'' then CHR ''$'' # GetSubstitution matched preceding following r
         else if d = CHR ''&'' then matched @ GetSubstitution matched preceding following r
         else if d = CHR 0x60 then preceding @ GetSubstitution matched preceding following r
         else if d = CHR 0x27 then following @ GetSubstitution matched preceding following r
         else c # GetSubstitution matched preceding following (d # r))
      else c # GetSubstitution matched preceding following (d # r))"

text \<open>
  \<open>s.replace(p, r)\<close> with a string \<open>r\<close> and a pattern that is a literal string, or a
  regular expression that is one literal and has no flag (\<open>/<\/template>/\<close>): the leftmost
  occurrence is replaced by the substitution of \<open>r\<close>; without an occurrence the result is
  \<open>s\<close>.
\<close>

definition replace :: "string \<Rightarrow> string \<Rightarrow> string \<Rightarrow> string" where
  "replace s p r =
     (case find_sub p s of
        None \<Rightarrow> s
      | Some (a, b) \<Rightarrow> a @ GetSubstitution p a b r @ b)"

section \<open>The two regular expressions of the default transform\<close>

text \<open>
  The class \<open>\s\<close> on code units below 256: tab, line feed, vertical tab, form feed,
  carriage return, space and the no-break space.
\<close>

definition is_space :: "char \<Rightarrow> bool" where
  "is_space c =
     (c = CHR 0x09 \<or> c = CHR 0x0A \<or> c = CHR 0x0B \<or> c = CHR 0x0C \<or> c = CHR 0x0D \<or>
      c = CHR 0x20 \<or> c = CHR 0xA0)"

text \<open>
  \<open>/<script\s+setup[^>]*>/\<close> anchored at the start of the text: the matched tag and the
  rest. Both repetitions are greedy, and neither can give a character back: \<open>setup\<close> does
  not start with a space and \<open>[^>]\<close> excludes the closing bracket.
\<close>

definition match_open_tag_at :: "string \<Rightarrow> (string \<times> string) option" where
  "match_open_tag_at s =
     (case strip_prefix ''<script'' s of
        None \<Rightarrow> None
      | Some r1 \<Rightarrow>
          (let ws = takeWhile is_space r1 in
           if ws = [] then None
           else (case strip_prefix ''setup'' (dropWhile is_space r1) of
                   None \<Rightarrow> None
                 | Some r3 \<Rightarrow>
                     (let attrs = takeWhile (\<lambda>c. c \<noteq> CHR ''>'') r3 in
                      case dropWhile (\<lambda>c. c \<noteq> CHR ''>'') r3 of
                        [] \<Rightarrow> None
                      | _ # r5 \<Rightarrow> Some (''<script'' @ ws @ ''setup'' @ attrs @ ''>'', r5)))))"

text \<open>\<open>/<script\s+setup[^>]*>/.test(code)\<close>: the tag matches at some position.\<close>

fun test_open_tag :: "string \<Rightarrow> bool" where
  "test_open_tag [] = False"
| "test_open_tag (c # cs) = (match_open_tag_at (c # cs) \<noteq> None \<or> test_open_tag cs)"

text \<open>
  \<open>/(<script\s+setup[^>]*>)([\s\S]*?)(<\/script>)/\<close> anchored at the start of the text:
  the three groups, without the closing tag which is a literal, and the rest. The lazy
  middle group stops at the first \<open></script>\<close> after the open tag.
\<close>

definition match_block_at :: "string \<Rightarrow> (string \<times> string \<times> string) option" where
  "match_block_at s =
     (case match_open_tag_at s of
        None \<Rightarrow> None
      | Some (openTag, r) \<Rightarrow>
          (case find_sub ''</script>'' r of
             None \<Rightarrow> None
           | Some (content, rest) \<Rightarrow> Some (openTag, content, rest)))"

text \<open>The leftmost match of the block expression: the text before it, the groups, the rest.\<close>

fun find_block :: "string \<Rightarrow> (string \<times> string \<times> string \<times> string) option" where
  "find_block [] = None"
| "find_block (c # cs) =
     (case match_block_at (c # cs) of
        Some (openTag, content, rest) \<Rightarrow> Some ([], openTag, content, rest)
      | None \<Rightarrow> map_option (\<lambda>(pre, r). (c # pre, r)) (find_block cs))"

text \<open>
  \<open>code.replace(re, f)\<close> for the block expression and a replacer function \<open>f\<close>, which
  receives the match and the three groups; what it returns is inserted as it is.
\<close>

definition replace_block ::
  "(string \<Rightarrow> string \<Rightarrow> string \<Rightarrow> string \<Rightarrow> string) \<Rightarrow> string \<Rightarrow> string" where
  "replace_block f s =
     (case find_block s of
        None \<Rightarrow> s
      | Some (pre, openTag, content, rest) \<Rightarrow>
          pre @ f (openTag @ content @ ''</script>'') openTag content ''</script>'' @ rest)"

text \<open>
  The default transform (the last statement of the \<open>transform\<close> hook):
  \<^verbatim>\<open>
  if (/<script\s+setup[^>]*>/.test(code)) {
    return code.replace(/(<script\s+setup[^>]*>)([\s\S]*?)(<\/script>)/,
      (match, openTag, content, closeTag) =>
        `${openTag}\n${comment}\n${scriptContent}\n${content}${closeTag}`)
  } else {
    return code.replace(/<\/template>/,
      `</template>\n\n<script setup>\n${comment}\n${scriptContent}\n</script>`)
  }
  \<close>
\<close>

definition defaultTransform :: "string \<Rightarrow> string \<Rightarrow> string \<Rightarrow> string" where
  "defaultTransform code comment scriptContent =
     (if test_open_tag code then
        replace_block
          (\<lambda>match openTag content closeTag.
             openTag @ ''\<newline>'' @ comment @ ''\<newline>'' @ scriptContent @ ''\<newline>'' @ content @ closeTag)
          code
      else
        replace code ''</template>''
          (''</template>\<newline>\<newline><script setup>\<newline>'' @ comment @ ''\<newline>'' @ scriptContent
             @ ''\<newline></script>''))"

text \<open>What the open-tag expression matches, as a set of strings.\<close>

definition is_open_tag :: "string \<Rightarrow> bool" where
  "is_open_tag t \<longleftrightarrow>
     (\<exists>ws attrs. t = ''<script'' @ ws @ ''setup'' @ attrs @ ''>'' \<and> ws \<noteq> [] \<and>
        list_all is_space ws \<and> CHR ''>'' \<notin> set attrs)"

section \<open>The path module of Node.js, POSIX flavour\<close>

text \<open>
  The plugin calls \<open>path.basename\<close>, \<open>path.dirname\<close>, \<open>path.extname\<close>, \<open>path.join\<close>,
  \<open>path.isAbsolute\<close> and \<open>path.relative\<close>. They belong to the platform; they are
  modelled here by what they compute on segments, for paths that do not end with a slash
  where a function reads the last segment.
\<close>

fun split_on :: "char \<Rightarrow> string \<Rightarrow> string list" where
  "split_on d [] = [[]]"
| "split_on d (c # cs) =
     (if c = d then [] # split_on d cs
      else (case split_on d cs of [] \<Rightarrow> [[c]] | x # xs \<Rightarrow> (c # x) # xs))"

fun join_with :: "string \<Rightarrow> string list \<Rightarrow> string" where
  "join_with sep [] = []"
| "join_with sep [x] = x"
| "join_with sep (x # y # ys) = x @ sep @ join_with sep (y # ys)"

definition path_isAbsolute :: "path \<Rightarrow> bool" where
  "path_isAbsolute p = (case p of [] \<Rightarrow> False | c # _ \<Rightarrow> c = CHR ''/'')"

text \<open>
  Empty segments and \<open>.\<close> are dropped; \<open>..\<close> removes the segment before it, stays when
  there is none and the path is relative, and is dropped at the root.
\<close>

fun normalizeString :: "bool \<Rightarrow> string list \<Rightarrow> string list \<Rightarrow> string list" where
  "normalizeString allowAboveRoot res [] = res"
| "normalizeString allowAboveRoot res (s # ss) =
     (if s = [] \<or> s = ''.'' then normalizeString allowAboveRoot res ss
      else if s = ''..'' then
        (if res \<noteq> [] \<and> last res \<noteq> ''..'' then normalizeString allowAboveRoot (butlast res) ss
         else if allowAboveRoot then normalizeString allowAboveRoot (res @ [''..'']) ss
         else normalizeString allowAboveRoot res ss)
      else normalizeString allowAboveRoot (res @ [s]) ss)"

definition path_normalize :: "path \<Rightarrow> path" where
  "path_normalize p =
     (if p = [] then ''.''
      else
        (let isAbsolute = path_isAbsolute p;
             trailingSeparator = (last p = CHR ''/'');
             body = join_with ''/'' (normalizeString (\<not> isAbsolute) [] (split_on CHR ''/'' p))
         in if body = [] then (if isAbsolute then ''/'' else if trailingSeparator then ''./'' else ''.'')
            else (if isAbsolute then ''/'' else []) @ body @ (if trailingSeparator then ''/'' else [])))"

definition path_join :: "path list \<Rightarrow> path" where
  "path_join parts =
     (let joined = join_with ''/'' (filter (\<lambda>a. a \<noteq> []) parts)
      in if joined = [] then ''.'' else path_normalize joined)"

definition last_segment :: "path \<Rightarrow> string" where
  "last_segment p =
     rev (takeWhile (\<lambda>c. c \<noteq> CHR ''/'') (dropWhile (\<lambda>c. c = CHR ''/'') (rev p)))"

text \<open>
  \<open>path.basename(p, ext)\<close>; the empty \<open>ext\<close> stands for a call without the second
  argument too, which behaves the same.
\<close>

definition path_basename :: "path \<Rightarrow> string \<Rightarrow> string" where
  "path_basename p ext =
     (let b = last_segment p
      in if ext \<noteq> [] \<and> ext = p then []
         else if ext \<noteq> [] \<and> suffix ext b \<and> ext \<noteq> b then take (length b - length ext) b
         else b)"

definition path_extname :: "path \<Rightarrow> string" where
  "path_extname p =
     (let b = last_segment p;
          e = rev (takeWhile (\<lambda>c. c \<noteq> CHR ''.'') (rev b))
      in if CHR ''.'' \<notin> set b \<or> b = ''..'' \<or> Suc (length e) = length b then []
         else CHR ''.'' # e)"

definition path_dirname :: "path \<Rightarrow> path" where
  "path_dirname p =
     (case p of
        [] \<Rightarrow> ''.''
      | c # cs \<Rightarrow>
          (case dropWhile (\<lambda>x. x \<noteq> CHR ''/'') (dropWhile (\<lambda>x. x = CHR ''/'') (rev cs)) of
             [] \<Rightarrow> (if c = CHR ''/'' then ''/'' else ''.'')
           | _ # r \<Rightarrow> (if c = CHR ''/'' \<and> r = [] then ''//'' else c # rev r)))"

text \<open>\<open>path.resolve(p)\<close> for the working directory \<open>cwd\<close>, an absolute path.\<close>

definition path_resolve :: "path \<Rightarrow> path \<Rightarrow> path" where
  "path_resolve cwd p =
     (let full = (if path_isAbsolute p then p else cwd @ ''/'' @ p)
      in CHR ''/'' # join_with ''/'' (normalizeString False [] (split_on CHR ''/'' full)))"

fun drop_common :: "string list \<Rightarrow> string list \<Rightarrow> string list \<times> string list" where
  "drop_common (x # xs) (y # ys) = (if x = y then drop_common xs ys else (x # xs, y # ys))"
| "drop_common xs ys = (xs, ys)"

definition path_relative :: "path \<Rightarrow> path \<Rightarrow> path \<Rightarrow> path" where
  "path_relative cwd from to =
     (if from = to then []
      else
        (let f = filter (\<lambda>a. a \<noteq> []) (split_on CHR ''/'' (path_resolve cwd from));
             t = filter (\<lambda>a. a \<noteq> []) (split_on CHR ''/'' (path_resolve cwd to));
             (f', t') = drop_common f t
         in join_with ''/'' (replicate (length f') ''..'' @ t')))"

section \<open>The file system\<close>

text \<open>
  A file system is a tree. A directory lists its entries in the order in which
  \<open>readdirSync\<close> enumerates them. \<open>NoAccessFile\<close> and \<open>NoAccessDir\<close> are a file and a
  directory that exist and cannot be read; \<open>BrokenLink\<close> is a symbolic link without a
  target, an entry that is neither a file nor a directory and does not exist as a path.
\<close>

datatype fsnode =
    File string
  | Dir "(string \<times> fsnode) list"
  | NoAccessFile
  | NoAccessDir
  | BrokenLink

record filesystem =
  root :: fsnode
  cwd :: path

text \<open>
  An \<open>Error\<close> object, with its \<open>stack\<close> (when it has one) and \<open>message\<close>; of the stack
  only the first line is kept. The functions of \<open>fs\<close> throw such objects.
\<close>

datatype js_error = JsError (stack: "string option") (message: string)

text \<open>
  What a \<open>throw\<close> statement can throw: an object, or \<open>null\<close> or \<open>undefined\<close>, of which
  no property can be read. The overrides of the user may throw any of them.
\<close>

datatype thrown = ThrownObject js_error | ThrownNull | ThrownUndefined

definition fs_error :: "string \<Rightarrow> string \<Rightarrow> path \<Rightarrow> js_error" where
  "fs_error code syscall p =
     (let m = code @ '', '' @ syscall @ '' '' @ [CHR 0x27] @ p @ [CHR 0x27]
      in JsError (Some (''Error: '' @ m)) m)"

text \<open>The error of a read on a directory, whose message names no path.\<close>

definition eisdir_error :: js_error where
  "eisdir_error =
     JsError (Some ''Error: EISDIR: illegal operation on a directory, read'')
       ''EISDIR: illegal operation on a directory, read''"

text \<open>The \<open>TypeError\<close> of reading the property \<open>stack\<close> of \<open>null\<close> or \<open>undefined\<close>.\<close>

definition stack_of_nullish :: "string \<Rightarrow> js_error" where
  "stack_of_nullish v =
     (let m = ''Cannot read properties of '' @ v @ '' (reading '' @ [CHR 0x27] @ ''stack''
                @ [CHR 0x27] @ '')''
      in JsError (Some (''TypeError: '' @ m)) m)"

text \<open>
  The kind of a node, as a \<open>Dirent\<close> of \<open>readdirSync(dir, { withFileTypes: true })\<close>
  tells it.
\<close>

fun isDirectory :: "fsnode \<Rightarrow> bool" where
  "isDirectory (Dir es) = True"
| "isDirectory NoAccessDir = True"
| "isDirectory n = False"

fun isFile :: "fsnode \<Rightarrow> bool" where
  "isFile (File content) = True"
| "isFile NoAccessFile = True"
| "isFile n = False"

text \<open>
  Path resolution, one segment after the other from the root; \<open>up\<close> holds the
  directories above the current node, the nearest first. An empty segment (a doubled or
  a trailing slash) asks for a directory; \<open>.\<close> and \<open>..\<close> ask for a directory that can be
  searched, and \<open>..\<close> at the root stays there. Nothing is found below a file, a
  directory without access or a link without a target.
\<close>

fun searchable :: "fsnode \<Rightarrow> bool" where
  "searchable (Dir es) = True"
| "searchable n = False"

fun entry :: "fsnode \<Rightarrow> string \<Rightarrow> fsnode option" where
  "entry (Dir es) s = map_of es s"
| "entry n s = None"

fun walk :: "fsnode list \<Rightarrow> fsnode \<Rightarrow> string list \<Rightarrow> fsnode option" where
  "walk up n [] = Some n"
| "walk up n (s # ss) =
     (if s = [] then (if isDirectory n then walk up n ss else None)
      else if s = ''.'' then (if searchable n then walk up n ss else None)
      else if s = ''..'' then
        (if \<not> searchable n then None
         else (case up of [] \<Rightarrow> walk [] n ss | parent # higher \<Rightarrow> walk higher parent ss))
      else (case entry n s of None \<Rightarrow> None | Some child \<Rightarrow> walk (n # up) child ss))"

text \<open>
  The node a path denotes, if any; a relative path starts at the working directory. A
  link without a target denotes nothing.
\<close>

definition lookup :: "filesystem \<Rightarrow> path \<Rightarrow> fsnode option" where
  "lookup fs p =
     (if p = [] then None
      else (case walk [] (root fs)
                   (split_on CHR ''/'' (if path_isAbsolute p then p else cwd fs @ ''/'' @ p)) of
              None \<Rightarrow> None
            | Some BrokenLink \<Rightarrow> None
            | Some n \<Rightarrow> Some n))"

definition existsSync :: "filesystem \<Rightarrow> path \<Rightarrow> bool" where
  "existsSync fs p = (lookup fs p \<noteq> None)"

definition readFileSync :: "filesystem \<Rightarrow> path \<Rightarrow> js_error + string" where
  "readFileSync fs p =
     (case lookup fs p of
        Some (File content) \<Rightarrow> Inr content
      | Some NoAccessFile \<Rightarrow> Inl (fs_error ''EACCES: permission denied'' ''open'' p)
      | Some (Dir es) \<Rightarrow> Inl eisdir_error
      | Some NoAccessDir \<Rightarrow> Inl (fs_error ''EACCES: permission denied'' ''open'' p)
      | _ \<Rightarrow> Inl (fs_error ''ENOENT: no such file or directory'' ''open'' p))"

text \<open>\<open>readdirSync\<close> on the node that the path \<open>dir\<close> denotes.\<close>

fun readdirSync_node :: "path \<Rightarrow> fsnode \<Rightarrow> js_error + (string \<times> fsnode) list" where
  "readdirSync_node dir (Dir es) = Inr es"
| "readdirSync_node dir NoAccessDir = Inl (fs_error ''EACCES: permission denied'' ''scandir'' dir)"
| "readdirSync_node dir BrokenLink = Inl (fs_error ''ENOENT: no such file or directory'' ''scandir'' dir)"
| "readdirSync_node dir n = Inl (fs_error ''ENOTDIR: not a directory'' ''scandir'' dir)"

section \<open>The plugin's state\<close>

text \<open>
  Every call of the \<open>fs\<close> module is recorded. The first three constructors are the calls
  of \<open>src/index.js\<close>; the packaging script \<open>build.js\<close> calls the other three.
\<close>

datatype fs_call =
    ExistsSync path
  | ReaddirSync path
  | ReadFileSync path
  | MkdirSync path
  | CopyFileSync path path
  | WriteFileSync path string

fun writes :: "fs_call \<Rightarrow> bool" where
  "writes (ExistsSync p) = False"
| "writes (ReaddirSync p) = False"
| "writes (ReadFileSync p) = False"
| "writes (MkdirSync p) = True"
| "writes (CopyFileSync p q) = True"
| "writes (WriteFileSync p content) = True"

datatype console_method = ConsoleError | ConsoleWarn | ConsoleLog

datatype log_level = Debug | Info | Warn | Error

text \<open>
  \<open>scriptCache\<close> is the \<open>Map\<close> of the closure: \<open>scriptCache w p = None\<close> when \<open>has(p)\<close> is
  false, \<open>Some None\<close> for a cached \<open>null\<close>, \<open>Some (Some f)\<close> for a cached script path.
\<close>

record world =
  scriptCache :: "path \<rightharpoonup> path option"
  fsCalls :: "fs_call list"
  console :: "(console_method \<times> string \<times> string) list"

definition called :: "fs_call \<Rightarrow> world \<Rightarrow> world" where
  "called c w = w\<lparr>fsCalls := fsCalls w @ [c]\<rparr>"

definition print :: "console_method \<Rightarrow> string \<Rightarrow> string \<Rightarrow> world \<Rightarrow> world" where
  "print m pre msg w = w\<lparr>console := console w @ [(m, pre, msg)]\<rparr>"

text \<open>
  The merged configuration \<open>{ ...defaultOptions, ...options }\<close>. The two overrides are
  functions of the user: they may read the file system, return a value or throw.
\<close>

record config =
  scriptPaths :: "path list"
  extensions :: "string list"
  aliases :: "(string \<times> string) list"
  debug :: bool
  custom_resolveScriptPath :: "(filesystem \<Rightarrow> path \<Rightarrow> thrown + path option) option"
  custom_transform ::
    "(filesystem \<Rightarrow> string \<Rightarrow> string \<Rightarrow> string \<Rightarrow> path \<Rightarrow> path \<Rightarrow> thrown + string option) option"
  rootDir :: path
  srcDir :: string
  injectComment :: string
  useSameDir :: bool

fun toUpperCase :: "log_level \<Rightarrow> string" where
  "toUpperCase Debug = ''DEBUG''"
| "toUpperCase Info = ''INFO''"
| "toUpperCase Warn = ''WARN''"
| "toUpperCase Error = ''ERROR''"

text \<open>
  \<^verbatim>\<open>
  function log(message, level = 'debug') {
    if (!config.debug && level === 'debug') return
    const prefix = `[vue-script-merger] ${level.toUpperCase()}:`
    switch(level) {
      case 'error': console.error(prefix, message); break
      case 'warn': console.warn(prefix, message); break
      case 'info': case 'debug': default:
        if (config.debug) console.log(prefix, message)
    }
  }
  \<close>
  The fixed wording of the messages, Chinese in the source, is given in English.
\<close>

definition log :: "config \<Rightarrow> string \<Rightarrow> log_level \<Rightarrow> world \<Rightarrow> world" where
  "log cfg msg level w =
     (if \<not> debug cfg \<and> level = Debug then w
      else
        (let pre = ''[vue-script-merger] '' @ toUpperCase level @ '':''
         in case level of
              Error \<Rightarrow> print ConsoleError pre msg w
            | Warn \<Rightarrow> print ConsoleWarn pre msg w
            | _ \<Rightarrow> (if debug cfg then print ConsoleLog pre msg w else w)))"

section \<open>The path resolver\<close>

text \<open>
  \<^verbatim>\<open>
  function findMatchingFiles(dir, extensions, results = []) {
    if (!fs.existsSync(dir)) return results
    try {
      const entries = fs.readdirSync(dir, { withFileTypes: true })
      for (const entry of entries) {
        const fullPath = path.join(dir, entry.name)
        if (entry.isDirectory()) {
          findMatchingFiles(fullPath, extensions, results)
        } else if (entry.isFile() && extensions.some(ext => entry.name.endsWith(ext))) {
          results.push(fullPath)
        }
      }
    } catch (err) {
      log(`failed to read directory ${dir}: ${err.message}`, 'error')
    }
    return results
  }
  \<close>
  \<open>findMatchingFiles_node\<close> is the body for a path \<open>dir\<close> that exists and denotes the node
  \<open>n\<close>; the recursive call on \<open>path.join(dir, entry.name)\<close> runs on the node of that
  entry, which is what that path denotes in a tree. \<open>results\<close> is the one array shared by
  all calls.
\<close>

fun findMatchingFiles_node ::
    "config \<Rightarrow> string list \<Rightarrow> path \<Rightarrow> fsnode \<Rightarrow> path list \<times> world \<Rightarrow> path list \<times> world"
  and scan_entries ::
    "config \<Rightarrow> string list \<Rightarrow> path \<Rightarrow> (string \<times> fsnode) list \<Rightarrow> path list \<times> world
       \<Rightarrow> path list \<times> world"
where
  "findMatchingFiles_node cfg exts dir (Dir es) (results, w) =
     scan_entries cfg exts dir es (results, called (ReaddirSync dir) (called (ExistsSync dir) w))"
| "findMatchingFiles_node cfg exts dir n (results, w) =
     (case readdirSync_node dir n of
        Inl err \<Rightarrow>
          (results,
           log cfg (''failed to read directory '' @ dir @ '': '' @ message err) Error
             (called (ReaddirSync dir) (called (ExistsSync dir) w)))
      | Inr es \<Rightarrow> (results, called (ReaddirSync dir) (called (ExistsSync dir) w)))"
| "scan_entries cfg exts dir [] rw = rw"
| "scan_entries cfg exts dir ((name, child) # es) (results, w) =
     (let fullPath = path_join [dir, name]
      in scan_entries cfg exts dir es
           (if isDirectory child then findMatchingFiles_node cfg exts fullPath child (results, w)
            else if isFile child \<and> list_ex (\<lambda>ext. endsWith name ext) exts
                 then (results @ [fullPath], w)
            else (results, w)))"

definition findMatchingFiles ::
  "config \<Rightarrow> filesystem \<Rightarrow> path \<Rightarrow> string list \<Rightarrow> path list \<Rightarrow> world \<Rightarrow> path list \<times> world" where
  "findMatchingFiles cfg fs dir exts results w =
     (case lookup fs dir of
        None \<Rightarrow> (results, called (ExistsSync dir) w)
      | Some n \<Rightarrow> findMatchingFiles_node cfg exts dir n (results, w))"

text \<open>
  \<^verbatim>\<open>
  const resolveAlias = (filepath) => {
    for (const [alias, target] of Object.entries(config.aliases)) {
      if (filepath.startsWith(alias)) return filepath.replace(alias, target)
    }
    return filepath
  }
  \<close>
\<close>

fun resolveAlias_entries :: "(string \<times> string) list \<Rightarrow> path \<Rightarrow> path" where
  "resolveAlias_entries [] filepath = filepath"
| "resolveAlias_entries ((alias, target) # rest) filepath =
     (if startsWith filepath alias then replace filepath alias target
      else resolveAlias_entries rest filepath)"

definition resolveAlias :: "config \<Rightarrow> path \<Rightarrow> path" where
  "resolveAlias cfg filepath = resolveAlias_entries (aliases cfg) filepath"

text \<open>The loop over \<open>config.extensions\<close> in the directory of the component.\<close>

fun sameDirLoop ::
  "config \<Rightarrow> filesystem \<Rightarrow> path \<Rightarrow> path \<Rightarrow> string \<Rightarrow> string list \<Rightarrow> world \<Rightarrow> path option \<times> world" where
  "sameDirLoop cfg fs vueFilePath vueDir vueBaseName [] w = (None, w)"
| "sameDirLoop cfg fs vueFilePath vueDir vueBaseName (ext # exts) w =
     (let sameDirPath = path_join [vueDir, vueBaseName @ ext];
          w1 = called (ExistsSync sameDirPath) w
      in if existsSync fs sameDirPath then
           (Some sameDirPath,
            (log cfg (''found script file in the same directory: ''
                        @ path_relative (cwd fs) (rootDir cfg) sameDirPath) Debug w1)
              \<lparr>scriptCache := (scriptCache w1)(vueFilePath \<mapsto> Some sameDirPath)\<rparr>)
         else sameDirLoop cfg fs vueFilePath vueDir vueBaseName exts w1)"

text \<open>The test on a file of a search directory.\<close>

definition matches :: "string \<Rightarrow> path \<Rightarrow> bool" where
  "matches vueBaseName file =
     (path_basename file (path_extname file) = vueBaseName \<or>
      startsWith (path_basename file []) (vueBaseName @ ''.'') \<or>
      includes_str file (''/'' @ vueBaseName @ ''/index'') \<or>
      includes_str file ([CHR 0x5C] @ vueBaseName @ [CHR 0x5C] @ ''index''))"

definition searchDirOf :: "config \<Rightarrow> path \<Rightarrow> path" where
  "searchDirOf cfg scriptPath =
     resolveAlias cfg
       (if path_isAbsolute scriptPath then scriptPath
        else if startsWith scriptPath ''./'' \<or> startsWith scriptPath ''../''
             then path_join [rootDir cfg, scriptPath]
        else path_join [rootDir cfg, srcDir cfg, scriptPath])"

text \<open>
  The loop over \<open>config.scriptPaths\<close>. Nothing inside its \<open>try\<close> block throws
  (\<open>findMatchingFiles\<close> catches its own failure), so its \<open>catch\<close> branch has no case.
\<close>

fun searchLoop ::
  "config \<Rightarrow> filesystem \<Rightarrow> path \<Rightarrow> string \<Rightarrow> path list \<Rightarrow> world \<Rightarrow> path option \<times> world" where
  "searchLoop cfg fs vueFilePath vueBaseName [] w = (None, w)"
| "searchLoop cfg fs vueFilePath vueBaseName (scriptPath # rest) w =
     (let searchDir = searchDirOf cfg scriptPath;
          w1 = called (ExistsSync searchDir) w
      in if \<not> existsSync fs searchDir then
           searchLoop cfg fs vueFilePath vueBaseName rest
             (log cfg (''search directory does not exist: '' @ searchDir) Warn w1)
         else
           (case findMatchingFiles cfg fs searchDir (extensions cfg) [] w1 of
              (files, w2) \<Rightarrow>
                (case find (matches vueBaseName) files of
                   Some file \<Rightarrow>
                     (Some file,
                      (log cfg (''found matching script file: ''
                                  @ path_relative (cwd fs) (rootDir cfg) file) Debug w2)
                        \<lparr>scriptCache := (scriptCache w2)(vueFilePath \<mapsto> Some file)\<rparr>)
                 | None \<Rightarrow> searchLoop cfg fs vueFilePath vueBaseName rest w2)))"

text \<open>The function that \<open>createPathResolver(config)\<close> returns.\<close>

definition createPathResolver ::
  "config \<Rightarrow> filesystem \<Rightarrow> path \<Rightarrow> world \<Rightarrow> path option \<times> world" where
  "createPathResolver cfg fs vueFilePath w =
     (case scriptCache w vueFilePath of
        Some cached \<Rightarrow> (cached, w)
      | None \<Rightarrow>
          (let vueBaseName = path_basename vueFilePath ''.vue''
           in case (if useSameDir cfg
                    then sameDirLoop cfg fs vueFilePath (path_dirname vueFilePath) vueBaseName
                           (extensions cfg) w
                    else (None, w)) of
                (Some sameDirPath, w1) \<Rightarrow> (Some sameDirPath, w1)
              | (None, w1) \<Rightarrow>
                  (case searchLoop cfg fs vueFilePath vueBaseName (scriptPaths cfg) w1 of
                     (Some file, w2) \<Rightarrow> (Some file, w2)
                   | (None, w2) \<Rightarrow>
                       (None,
                        (log cfg (''no script file found matching '' @ path_basename vueFilePath [])
                           Warn w2)
                          \<lparr>scriptCache := (scriptCache w2)(vueFilePath \<mapsto> None)\<rparr>))))"

section \<open>The plugin\<close>

text \<open>
  \<open>const resolveScriptPath = config.resolveScriptPath || createPathResolver(config)\<close>.
  The built-in resolver does not throw; the override may.
\<close>

definition resolveScriptPath ::
  "config \<Rightarrow> filesystem \<Rightarrow> path \<Rightarrow> world \<Rightarrow> (thrown + path option) \<times> world" where
  "resolveScriptPath cfg fs vueFilePath w =
     (case custom_resolveScriptPath cfg of
        Some f \<Rightarrow> (f fs vueFilePath, w)
      | None \<Rightarrow> (case createPathResolver cfg fs vueFilePath w of (r, w1) \<Rightarrow> (Inr r, w1)))"

text \<open>The injected comment: the template with \<open>{filename}\<close> replaced.\<close>

definition commentOf :: "config \<Rightarrow> filesystem \<Rightarrow> path \<Rightarrow> path \<Rightarrow> string" where
  "commentOf cfg fs ident scriptPath =
     replace (injectComment cfg) ''{filename}''
       (path_relative (cwd fs) (path_dirname ident) scriptPath)"

text \<open>
  The \<open>try\<close> block of the \<open>transform\<close> hook; \<open>Inl\<close> is a thrown value, \<open>Inr None\<close> is
  \<open>null\<close>. A script path that is \<open>null\<close> or the empty string is falsy.
\<close>

definition transform_try ::
  "config \<Rightarrow> filesystem \<Rightarrow> string \<Rightarrow> path \<Rightarrow> world \<Rightarrow> (thrown + string option) \<times> world" where
  "transform_try cfg fs code ident w =
     (case resolveScriptPath cfg fs ident w of
        (Inl t, w1) \<Rightarrow> (Inl t, w1)
      | (Inr None, w1) \<Rightarrow> (Inr None, w1)
      | (Inr (Some scriptPath), w1) \<Rightarrow>
          (if scriptPath = [] then (Inr None, w1)
           else
             (let w2 = called (ReadFileSync scriptPath) w1
              in case readFileSync fs scriptPath of
                   Inl err \<Rightarrow> (Inl (ThrownObject err), w2)
                 | Inr scriptContent \<Rightarrow>
                     (let comment = commentOf cfg fs ident scriptPath
                      in case custom_transform cfg of
                           Some f \<Rightarrow> (f fs code scriptContent comment ident scriptPath, w2)
                         | None \<Rightarrow> (Inr (Some (defaultTransform code comment scriptContent)), w2)))))"

text \<open>
  \<^verbatim>\<open>
  transform(code, id) {
    if (!id.endsWith('.vue')) return null
    try { ... } catch (error) {
      log(`failed to process file ${id}: ${error.stack || error.message}`, 'error')
      return null
    }
  }
  \<close>
  The \<open>catch\<close> block reads \<open>error.stack\<close> before it calls \<open>log\<close>: of a caught \<open>null\<close> or
  \<open>undefined\<close> that read throws a \<open>TypeError\<close>, which leaves the hook, and nothing is
  printed. \<open>Inl\<close> is what the hook throws, \<open>Inr\<close> what it returns.
\<close>

definition transform ::
  "config \<Rightarrow> filesystem \<Rightarrow> string \<Rightarrow> path \<Rightarrow> world \<Rightarrow> (thrown + string option) \<times> world" where
  "transform cfg fs code ident w =
     (if \<not> endsWith ident ''.vue'' then (Inr None, w)
      else
        (case transform_try cfg fs code ident w of
           (Inl (ThrownObject error), w1) \<Rightarrow>
             (Inr None,
              log cfg (''failed to process file '' @ ident @ '': ''
                         @ (case stack error of
                              Some s \<Rightarrow> (if s = [] then message error else s)
                            | None \<Rightarrow> message error)) Error w1)
         | (Inl ThrownNull, w1) \<Rightarrow> (Inl (ThrownObject (stack_of_nullish ''null'')), w1)
         | (Inl ThrownUndefined, w1) \<Rightarrow> (Inl (ThrownObject (stack_of_nullish ''undefined'')), w1)
         | (Inr result, w1) \<Rightarrow> (Inr result, w1)))"

text \<open>
  A run of the plugin: the host calls the resolver and the hook, each time on the file
  system as it is then.
\<close>

datatype invocation = Resolve path | Transform string path

fun invoke :: "config \<Rightarrow> filesystem \<times> invocation \<Rightarrow> world \<Rightarrow> world" where
  "invoke cfg (fs, Resolve p) w = snd (resolveScriptPath cfg fs p w)"
| "invoke cfg (fs, Transform code ident) w = snd (transform cfg fs code ident w)"

definition run :: "config \<Rightarrow> (filesystem \<times> invocation) list \<Rightarrow> world \<Rightarrow> world" where
  "run cfg invocations w = fold (invoke cfg) invocations w"

text \<open>
  The calls of the packaging script \<open>build.js\<close>, for its directory \<open>dirname\<close> and the text
  of the type declarations it writes.
\<close>

definition build_js :: "filesystem \<Rightarrow> path \<Rightarrow> string \<Rightarrow> fs_call list" where
  "build_js fs dirname typesContent =
     (let distDir = path_join [dirname, ''dist''];
          srcFile = path_join [dirname, ''src/index.js'']
      in [ExistsSync distDir]
         @ (if \<not> existsSync fs distDir then [MkdirSync distDir] else [])
         @ [CopyFileSync srcFile (path_join [distDir, ''index.js'']),
            CopyFileSync srcFile (path_join [distDir, ''index.mjs'']),
            WriteFileSync (path_join [distDir, ''index.d.ts'']) typesContent])"

section \<open>A sample project\<close>

text \<open>
  A project at \<open>/proj\<close>: the component \<open>src/views/Foo.vue\<close>, two scripts for it in
  \<open>src/scripts\<close>, listed in alphabetical order, and a component \<open>src/views/Bar.vue\<close> with
  both of its scripts beside it.
\<close>

definition sample_fs :: filesystem where
  "sample_fs =
     \<lparr>root = Dir [(''proj'', Dir [(''src'', Dir [
          (''views'', Dir [
             (''Bar.js'', File ''const bar = 1''),
             (''Bar.script.js'', File ''const bar = 2''),
             (''Bar.vue'', File ''<template><p/></template>''),
             (''Foo.vue'', File ''<template><p/></template>'')]),
          (''scripts'', Dir [
             (''Bar.js'', File ''const bar = 3''),
             (''Foo.js'', File ''const foo = 1''),
             (''Foo.script.js'', File ''const foo = 2'')])])])],
      cwd = ''/proj''\<rparr>"

text \<open>The same project before any script was written.\<close>

definition bare_fs :: filesystem where
  "bare_fs =
     \<lparr>root = Dir [(''proj'', Dir [(''src'', Dir [
          (''views'', Dir [
             (''Bar.vue'', File ''<template><p/></template>''),
             (''Foo.vue'', File ''<template><p/></template>'')])])])],
      cwd = ''/proj''\<rparr>"

text \<open>The default options, with the comment template in English.\<close>

definition sample_config :: config where
  "sample_config =
     \<lparr>scriptPaths = [''views'', ''scripts'', ''components''],
      extensions = [''.script.js'', ''.js''],
      aliases = [],
      debug = False,
      custom_resolveScriptPath = None,
      custom_transform = None,
      rootDir = ''/proj'',
      srcDir = ''src'',
      injectComment = ''// external script: {filename}'',
      useSameDir = True\<rparr>"

text \<open>The state of a plugin instance that has not been called.\<close>

definition initial_world :: world where
  "initial_world = \<lparr>scriptCache = Map.empty, fsCalls = [], console = []\<rparr>"

text \<open>The project with a script beside \<open>Foo.vue\<close> that exists and cannot be read.\<close>

definition locked_fs :: filesystem where
  "locked_fs =
     \<lparr>root = Dir [(''proj'', Dir [(''src'', Dir [
          (''views'', Dir [
             (''Foo.js'', NoAccessFile),
             (''Foo.vue'', File ''<template><p/></template>'')])])])],
      cwd = ''/proj''\<rparr>"

text \<open>
  A \<open>resolveScriptPath\<close> override in the manner of the one in the README: the script of
  a component is looked for in one directory.
\<close>

definition sample_override :: "filesystem \<Rightarrow> path \<Rightarrow> thrown + path option" where
  "sample_override fs vueFilePath =
     (let customScriptPath = path_join [''/proj/src/scripts'', path_basename vueFilePath ''.vue'' @ ''.js'']
      in Inr (if existsSync fs customScriptPath then Some customScriptPath else None))"

definition override_config :: config where
  "override_config = sample_config\<lparr>custom_resolveScriptPath := Some sample_override\<rparr>"

text \<open>An override that gives up with \<open>throw null\<close>.\<close>

definition throwing_override :: "filesystem \<Rightarrow> path \<Rightarrow> thrown + path option" where
  "throwing_override fs vueFilePath = Inl ThrownNull"

definition throwing_config :: config where
  "throwing_config = sample_config\<lparr>custom_resolveScriptPath := Some throwing_override\<rparr>"

section \<open>Predicates on two states\<close>

text \<open>
  \<open>only_reads w w'\<close>: from \<open>w\<close> to \<open>w'\<close> the record of file system calls grew by calls
  that do not write. \<open>reads_only\<close> says in addition that the cache is the same.
\<close>

definition only_reads :: "world \<Rightarrow> world \<Rightarrow> bool" where
  "only_reads w w' \<longleftrightarrow> (\<exists>calls. fsCalls w' = fsCalls w @ calls \<and> \<not> list_ex writes calls)"

definition reads_only :: "world \<Rightarrow> world \<Rightarrow> bool" where
  "reads_only w w' \<longleftrightarrow>
     scriptCache w' = scriptCache w \<and>
     (\<exists>calls. fsCalls w' = fsCalls w @ calls \<and> \<not> list_ex writes calls)"

text \<open>
  The path that the resolver tests in the directory of the component \<open>vueFilePath\<close> for
  the suffix \<open>ext\<close>.
\<close>

definition sameDirPathOf :: "path \<Rightarrow> string \<Rightarrow> path" where
  "sameDirPathOf vueFilePath ext =
     path_join [path_dirname vueFilePath, path_basename vueFilePath ''.vue'' @ ext]"

text \<open>
  \<open>cache_agrees cfg fs w\<close>: no entry of the cache contradicts the same-directory rule on
  the file system \<open>fs\<close>.
\<close>

definition cache_agrees :: "config \<Rightarrow> filesystem \<Rightarrow> world \<Rightarrow> bool" where
  "cache_agrees cfg fs w \<longleftrightarrow>
     (\<forall>P r e. scriptCache w P = Some r \<and>
        find (\<lambda>e. existsSync fs (sameDirPathOf P e)) (extensions cfg) = Some e
        \<longrightarrow> r = Some (sameDirPathOf P e))"


section \<open>Properties of the string operations\<close>

lemma strip_prefix_iff: "strip_prefix p s = Some r \<longleftrightarrow> s = p @ r"
  by (induction p s rule: strip_prefix.induct) auto

lemma strip_prefix_None_iff: "strip_prefix p s = None \<longleftrightarrow> \<not> prefix p s"
  by (induction p s rule: strip_prefix.induct) auto

lemma find_sub_sound: "find_sub p s = Some (a, b) \<Longrightarrow> s = a @ p @ b"
proof (induction s arbitrary: a)
  case Nil
  then show ?case by (simp split: if_splits)
next
  case (Cons c cs)
  show ?case
  proof (cases "strip_prefix p (c # cs)")
    case None
    with Cons.prems obtain a' where "find_sub p cs = Some (a', b)" and "a = c # a'"
      by auto
    with Cons.IH show ?thesis by simp
  next
    case (Some r)
    with Cons.prems show ?thesis by (simp add: strip_prefix_iff)
  qed
qed

lemma find_sub_first:
  "find_sub p s = Some (a, b) \<Longrightarrow> s = a' @ p @ b' \<Longrightarrow> length a \<le> length a'"
proof (induction s arbitrary: a a')
  case Nil
  then show ?case by (simp split: if_splits)
next
  case (Cons c cs)
  show ?case
  proof (cases "strip_prefix p (c # cs)")
    case None
    with Cons.prems(1) obtain a0 where a0: "find_sub p cs = Some (a0, b)" "a = c # a0"
      by auto
    from None have np: "\<not> prefix p (c # cs)" by (simp add: strip_prefix_None_iff)
    with Cons.prems(2) have "a' \<noteq> []" by (auto simp: prefix_def)
    then obtain a1 where a1: "a' = c # a1" "cs = a1 @ p @ b'"
      using Cons.prems(2) by (cases a') auto
    from Cons.IH[OF a0(1) a1(2)] a0(2) a1(1) show ?thesis by simp
  next
    case (Some r)
    with Cons.prems(1) have "a = []" by simp
    then show ?thesis by simp
  qed
qed

lemma find_sub_complete: "s = a @ p @ b \<Longrightarrow> find_sub p s \<noteq> None"
proof (induction s arbitrary: a)
  case Nil
  then show ?case by simp
next
  case (Cons c cs)
  show ?case
  proof (cases "strip_prefix p (c # cs)")
    case None
    then have np: "\<not> prefix p (c # cs)" by (simp add: strip_prefix_None_iff)
    with Cons.prems have "a \<noteq> []" by (auto simp: prefix_def)
    then obtain a1 where "a = c # a1" "cs = a1 @ p @ b"
      using Cons.prems by (cases a) auto
    with Cons.IH have "find_sub p cs \<noteq> None" by blast
    with None show ?thesis by auto
  next
    case (Some r)
    then show ?thesis by simp
  qed
qed

lemma find_sub_None_iff: "find_sub p s = None \<longleftrightarrow> (\<forall>a b. s \<noteq> a @ p @ b)"
  using find_sub_complete find_sub_sound
  by (metis not_None_eq surj_pair)

lemma not_space_s: "\<not> is_space CHR ''s''"
  by (simp add: is_space_def)

lemma match_open_tag_at_sound:
  assumes "match_open_tag_at s = Some (t, r)"
  shows "s = t @ r \<and> is_open_tag t"
proof -
  from assms obtain r1 where r1: "strip_prefix ''<script'' s = Some r1"
    by (auto simp: match_open_tag_at_def split: option.splits)
  define ws where "ws = takeWhile is_space r1"
  from assms r1 have ws: "ws \<noteq> []"
    by (auto simp: match_open_tag_at_def ws_def Let_def split: option.splits if_splits)
  from assms r1 ws obtain r3 where r3: "strip_prefix ''setup'' (dropWhile is_space r1) = Some r3"
    by (auto simp: match_open_tag_at_def ws_def Let_def split: option.splits if_splits)
  define attrs where "attrs = takeWhile (\<lambda>c. c \<noteq> CHR ''>'') r3"
  from assms r1 ws r3 obtain x r5 where r5: "dropWhile (\<lambda>c. c \<noteq> CHR ''>'') r3 = x # r5"
    and t: "t = ''<script'' @ ws @ ''setup'' @ attrs @ ''>''" and r: "r = r5"
    by (auto simp: match_open_tag_at_def ws_def attrs_def Let_def split: option.splits if_splits list.splits)
  have x: "x = CHR ''>''"
    using hd_dropWhile[of "\<lambda>c. c \<noteq> CHR ''>''" r3] r5 by simp
  have "r3 = attrs @ ''>'' @ r5"
    using takeWhile_dropWhile_id[of "\<lambda>c. c \<noteq> CHR ''>''" r3] r5 x by (simp add: attrs_def)
  moreover have "dropWhile is_space r1 = ''setup'' @ r3"
    using r3 by (simp only: strip_prefix_iff)
  moreover have "r1 = ws @ dropWhile is_space r1"
    by (simp add: ws_def)
  moreover have "s = ''<script'' @ r1"
    using r1 by (simp only: strip_prefix_iff)
  ultimately have "s = t @ r" using t r by simp
  moreover have "list_all is_space ws"
    unfolding ws_def list_all_iff by (auto dest: set_takeWhileD)
  moreover have "CHR ''>'' \<notin> set attrs"
    unfolding attrs_def by (auto dest: set_takeWhileD)
  ultimately show ?thesis using t ws unfolding is_open_tag_def by blast
qed

lemma match_open_tag_at_complete:
  assumes "is_open_tag t"
  shows "match_open_tag_at (t @ r) = Some (t, r)"
proof -
  from assms obtain ws attrs where t: "t = ''<script'' @ ws @ ''setup'' @ attrs @ ''>''"
    and ws: "ws \<noteq> []" "list_all is_space ws" and attrs: "CHR ''>'' \<notin> set attrs"
    unfolding is_open_tag_def by blast
  have 1: "strip_prefix ''<script'' (t @ r) = Some (ws @ ''setup'' @ attrs @ ''>'' @ r)"
    by (simp only: strip_prefix_iff t) simp
  have 2: "takeWhile is_space (ws @ ''setup'' @ attrs @ ''>'' @ r) = ws"
    using ws(2) not_space_s by (simp add: list_all_iff)
  have 3: "dropWhile is_space (ws @ ''setup'' @ attrs @ ''>'' @ r) = ''setup'' @ attrs @ ''>'' @ r"
    using ws(2) not_space_s by (simp add: list_all_iff)
  have 4: "strip_prefix ''setup'' (''setup'' @ attrs @ ''>'' @ r) = Some (attrs @ ''>'' @ r)"
    by (simp only: strip_prefix_iff)
  have na: "\<And>x. x \<in> set attrs \<Longrightarrow> x \<noteq> CHR ''>''"
    using attrs by auto
  have 5: "takeWhile (\<lambda>c. c \<noteq> CHR ''>'') (attrs @ ''>'' @ r) = attrs"
    using na by simp
  have 6: "dropWhile (\<lambda>c. c \<noteq> CHR ''>'') (attrs @ ''>'' @ r) = ''>'' @ r"
    using na by simp
  show ?thesis
    unfolding match_open_tag_at_def 1 option.case 2 3 4 5 6 Let_def using ws(1) t by simp
qed

lemma match_open_tag_at_iff:
  "match_open_tag_at s = Some (t, r) \<longleftrightarrow> s = t @ r \<and> is_open_tag t"
  using match_open_tag_at_sound match_open_tag_at_complete by blast

lemma test_open_tag_iff: "test_open_tag s \<longleftrightarrow> (\<exists>a t b. s = a @ t @ b \<and> is_open_tag t)"
proof (induction s)
  case Nil
  have "\<not> is_open_tag []" by (simp add: is_open_tag_def)
  then show ?case by auto
next
  case (Cons c cs)
  show ?case
  proof
    assume "test_open_tag (c # cs)"
    then consider "match_open_tag_at (c # cs) \<noteq> None" | "test_open_tag cs" by auto
    then show "\<exists>a t b. c # cs = a @ t @ b \<and> is_open_tag t"
    proof cases
      case 1
      then obtain t r where "match_open_tag_at (c # cs) = Some (t, r)" by auto
      then have "c # cs = [] @ t @ r \<and> is_open_tag t" by (simp add: match_open_tag_at_iff)
      then show ?thesis by blast
    next
      case 2
      with Cons.IH obtain a t b where "cs = a @ t @ b" "is_open_tag t" by blast
      then have "c # cs = (c # a) @ t @ b \<and> is_open_tag t" by simp
      then show ?thesis by blast
    qed
  next
    assume "\<exists>a t b. c # cs = a @ t @ b \<and> is_open_tag t"
    then obtain a t b where *: "c # cs = a @ t @ b" "is_open_tag t" by blast
    show "test_open_tag (c # cs)"
    proof (cases a)
      case Nil
      with * have "match_open_tag_at (c # cs) = Some (t, b)" by (simp add: match_open_tag_at_iff)
      then show ?thesis by simp
    next
      case (Cons x a')
      with * have "cs = a' @ t @ b" by simp
      with *(2) Cons.IH have "test_open_tag cs" by blast
      then show ?thesis by simp
    qed
  qed
qed


lemma match_block_at_sound:
  assumes "match_block_at s = Some (t, inner, rest)"
  shows "s = t @ inner @ ''</script>'' @ rest \<and> is_open_tag t \<and>
         (\<forall>u v. inner @ ''</script>'' @ rest = u @ ''</script>'' @ v \<longrightarrow> length inner \<le> length u)"
proof -
  from assms obtain r where r: "match_open_tag_at s = Some (t, r)"
    and f: "find_sub ''</script>'' r = Some (inner, rest)"
    by (auto simp: match_block_at_def split: option.splits)
  from r have 1: "s = t @ r" "is_open_tag t" by (simp_all add: match_open_tag_at_iff)
  from f have 2: "r = inner @ ''</script>'' @ rest" by (rule find_sub_sound)
  have "length inner \<le> length u" if "inner @ ''</script>'' @ rest = u @ ''</script>'' @ v" for u v
    using find_sub_first[OF f, of u v] that 2 by simp
  with 1 2 show ?thesis by blast
qed

lemma match_block_at_complete:
  assumes "s = t @ b @ ''</script>'' @ c" and "is_open_tag t"
  shows "match_block_at s \<noteq> None"
proof -
  have "match_open_tag_at s = Some (t, b @ ''</script>'' @ c)"
    using assms by (simp add: match_open_tag_at_iff)
  moreover have "find_sub ''</script>'' (b @ ''</script>'' @ c) \<noteq> None"
    by (rule find_sub_complete) (rule refl)
  ultimately show ?thesis by (auto simp: match_block_at_def)
qed

lemma find_block_sound:
  "find_block s = Some (pre, t, inner, rest) \<Longrightarrow>
     s = pre @ t @ inner @ ''</script>'' @ rest \<and> is_open_tag t \<and>
     (\<forall>u v. inner @ ''</script>'' @ rest = u @ ''</script>'' @ v \<longrightarrow> length inner \<le> length u)"
proof (induction s arbitrary: pre)
  case Nil
  then show ?case by simp
next
  case (Cons x xs)
  show ?case
  proof (cases "match_block_at (x # xs)")
    case None
    with Cons.prems obtain pre' where p: "find_block xs = Some (pre', t, inner, rest)" "pre = x # pre'"
      by auto
    from Cons.IH[OF p(1)] p(2) show ?thesis by simp
  next
    case (Some m)
    with Cons.prems have "m = (t, inner, rest)" "pre = []"
      by (auto split: prod.splits)
    with Some match_block_at_sound[of "x # xs" t inner rest] show ?thesis by simp
  qed
qed

lemma find_block_first:
  "find_block s = Some (pre, t, inner, rest) \<Longrightarrow>
     s = a @ t' @ b @ ''</script>'' @ c \<Longrightarrow> is_open_tag t' \<Longrightarrow> length pre \<le> length a"
proof (induction s arbitrary: pre a)
  case Nil
  then show ?case by simp
next
  case (Cons x xs)
  show ?case
  proof (cases "match_block_at (x # xs)")
    case None
    with Cons.prems(1) obtain pre' where p: "find_block xs = Some (pre', t, inner, rest)" "pre = x # pre'"
      by auto
    have "a \<noteq> []"
    proof
      assume "a = []"
      with Cons.prems(2) have "x # xs = t' @ b @ ''</script>'' @ c" by simp
      from match_block_at_complete[OF this Cons.prems(3)] None show False by simp
    qed
    then obtain a1 where a1: "a = x # a1" "xs = a1 @ t' @ b @ ''</script>'' @ c"
      using Cons.prems(2) by (cases a) auto
    from Cons.IH[OF p(1) a1(2) Cons.prems(3)] p(2) a1(1) show ?thesis by simp
  next
    case (Some m)
    with Cons.prems(1) have "pre = []" by (auto split: prod.splits)
    then show ?thesis by simp
  qed
qed

lemma find_block_complete:
  "s = a @ t @ b @ ''</script>'' @ c \<Longrightarrow> is_open_tag t \<Longrightarrow> find_block s \<noteq> None"
proof (induction s arbitrary: a)
  case Nil
  then show ?case by simp
next
  case (Cons x xs)
  show ?case
  proof (cases "match_block_at (x # xs)")
    case None
    have "a \<noteq> []"
    proof
      assume "a = []"
      with Cons.prems(1) have "x # xs = t @ b @ ''</script>'' @ c" by simp
      from match_block_at_complete[OF this Cons.prems(2)] None show False by simp
    qed
    then obtain a1 where a1: "a = x # a1" "xs = a1 @ t @ b @ ''</script>'' @ c"
      using Cons.prems(1) by (cases a) auto
    from Cons.IH[OF a1(2) Cons.prems(2)] None show ?thesis by auto
  next
    case (Some m)
    then show ?thesis by (auto split: prod.splits)
  qed
qed

lemma find_block_None_iff:
  "find_block s = None \<longleftrightarrow> \<not> (\<exists>a t b c. s = a @ t @ b @ ''</script>'' @ c \<and> is_open_tag t)"
proof
  assume n: "find_block s = None"
  show "\<not> (\<exists>a t b c. s = a @ t @ b @ ''</script>'' @ c \<and> is_open_tag t)"
  proof
    assume "\<exists>a t b c. s = a @ t @ b @ ''</script>'' @ c \<and> is_open_tag t"
    then obtain a t b c where "s = a @ t @ b @ ''</script>'' @ c" "is_open_tag t" by blast
    from find_block_complete[OF this] n show False by simp
  qed
next
  assume h: "\<not> (\<exists>a t b c. s = a @ t @ b @ ''</script>'' @ c \<and> is_open_tag t)"
  show "find_block s = None"
  proof (rule ccontr)
    assume "find_block s \<noteq> None"
    then obtain pre t inner rest where "find_block s = Some (pre, t, inner, rest)" by auto
    from find_block_sound[OF this] h show False by blast
  qed
qed

section \<open>The default transform\<close>

text \<open>
  C3. When the component source contains a \<open><script setup ...>\<close> open tag followed by a
  closing \<open></script>\<close>, the default transform replaces the first such block, and only
  it: the source is \<open>pre @ openTag @ content @ </script> @ post\<close>, where no block starts
  before \<open>pre\<close> ends and \<open>content\<close> reaches the first closing tag after the open tag, and
  the result is \<open>pre\<close>, the open tag, a newline, the comment, a newline, the script
  content, a newline, the original inner content, the closing tag and \<open>post\<close>, both
  \<open>pre\<close> and \<open>post\<close> unchanged.
\<close>

theorem default_transform_script_setup:
  assumes "code = a @ t @ b @ ''</script>'' @ c" and "is_open_tag t"
  shows "\<exists>pre openTag content post.
      code = pre @ openTag @ content @ ''</script>'' @ post \<and> is_open_tag openTag \<and>
      (\<forall>a' t' b' c'. code = a' @ t' @ b' @ ''</script>'' @ c' \<and> is_open_tag t'
          \<longrightarrow> length pre \<le> length a') \<and>
      (\<forall>u v. content @ ''</script>'' @ post = u @ ''</script>'' @ v \<longrightarrow> length content \<le> length u) \<and>
      defaultTransform code comment scriptContent =
        pre @ openTag @ ''\<newline>'' @ comment @ ''\<newline>'' @ scriptContent @ ''\<newline>'' @ content
          @ ''</script>'' @ post"
proof -
  from find_block_complete[OF assms] obtain pre openTag content post
    where fb: "find_block code = Some (pre, openTag, content, post)" by auto
  have "code = a @ t @ (b @ ''</script>'' @ c)" using assms(1) by simp
  with assms(2) have tst: "test_open_tag code" unfolding test_open_tag_iff by blast
  have res: "defaultTransform code comment scriptContent =
        pre @ openTag @ ''\<newline>'' @ comment @ ''\<newline>'' @ scriptContent @ ''\<newline>'' @ content
          @ ''</script>'' @ post"
    using tst fb by (simp add: defaultTransform_def replace_block_def)
  from find_block_sound[OF fb] find_block_first[OF fb] res show ?thesis by blast
qed

theorem default_transform_script_setup_witness:
  "(''<template><p/></template><script setup lang=ts>const n = 1</script><script>let m</script>''
      = ''<template><p/></template>'' @ ''<script setup lang=ts>'' @ ''const n = 1'' @ ''</script>''
          @ ''<script>let m</script>'' \<and>
    is_open_tag ''<script setup lang=ts>'') \<and>
   (\<exists>pre openTag content post.
      ''<template><p/></template><script setup lang=ts>const n = 1</script><script>let m</script>''
        = pre @ openTag @ content @ ''</script>'' @ post \<and> is_open_tag openTag \<and>
      (\<forall>a' t' b' c'.
          ''<template><p/></template><script setup lang=ts>const n = 1</script><script>let m</script>''
            = a' @ t' @ b' @ ''</script>'' @ c' \<and> is_open_tag t'
          \<longrightarrow> length pre \<le> length a') \<and>
      (\<forall>u v. content @ ''</script>'' @ post = u @ ''</script>'' @ v \<longrightarrow> length content \<le> length u) \<and>
      defaultTransform
        ''<template><p/></template><script setup lang=ts>const n = 1</script><script>let m</script>''
        ''// external script: Foo.js'' ''import { ref } from vue'' =
        pre @ openTag @ ''\<newline>'' @ ''// external script: Foo.js'' @ ''\<newline>''
          @ ''import { ref } from vue'' @ ''\<newline>'' @ content @ ''</script>'' @ post)"
proof -
  have d: "''<template><p/></template><script setup lang=ts>const n = 1</script><script>let m</script>''
      = ''<template><p/></template>'' @ ''<script setup lang=ts>'' @ ''const n = 1'' @ ''</script>''
          @ ''<script>let m</script>''"
    by simp
  have "match_open_tag_at (''<script setup lang=ts>'' @ []) = Some (''<script setup lang=ts>'', [])"
    by code_simp
  then have o: "is_open_tag ''<script setup lang=ts>''"
    by (simp only: match_open_tag_at_iff)
  from d o default_transform_script_setup[OF d o, of "''// external script: Foo.js''"
      "''import { ref } from vue''"]
  show ?thesis by blast
qed

section \<open>What the resolver and the hook do to the state\<close>

lemma scriptCache_called [simp]: "scriptCache (called c w) = scriptCache w"
  by (simp add: called_def)

lemma fsCalls_called [simp]: "fsCalls (called c w) = fsCalls w @ [c]"
  by (simp add: called_def)

lemma console_called [simp]: "console (called c w) = console w"
  by (simp add: called_def)

lemma scriptCache_log [simp]: "scriptCache (log cfg msg level w) = scriptCache w"
  by (simp add: log_def print_def Let_def split: log_level.splits)

lemma fsCalls_log [simp]: "fsCalls (log cfg msg level w) = fsCalls w"
  by (simp add: log_def print_def Let_def split: log_level.splits)

lemma console_log_Error:
  "console (log cfg msg Error w) = console w @ [(ConsoleError, ''[vue-script-merger] ERROR:'', msg)]"
  by (simp add: log_def print_def)

lemma reads_only_refl: "reads_only w w"
  by (simp add: reads_only_def)

lemma reads_only_trans: "reads_only w w1 \<Longrightarrow> reads_only w1 w2 \<Longrightarrow> reads_only w w2"
  unfolding reads_only_def by (elim conjE exE) (simp add: list_ex_iff, blast)

lemma reads_only_log: "reads_only w (log cfg msg level w)"
  by (simp add: reads_only_def)

lemma reads_only_called: "\<not> writes c \<Longrightarrow> reads_only w (called c w)"
  by (simp add: reads_only_def)

lemma findMatchingFiles_node_reads_only:
  "reads_only (snd rw) (snd (findMatchingFiles_node cfg exts dir n rw))"
  "reads_only (snd rw) (snd (scan_entries cfg exts dir es rw))"
proof (induction cfg exts dir n rw and cfg exts dir es rw
    rule: findMatchingFiles_node_scan_entries.induct)
  case (1 cfg exts dir es results w)
  have "reads_only w (called (ReaddirSync dir) (called (ExistsSync dir) w))"
    by (simp add: reads_only_def)
  with 1 show ?case by (auto intro: reads_only_trans)
next
  case (3 cfg exts dir rw)
  then show ?case by (simp add: reads_only_refl)
next
  case (4 cfg exts dir name child es results w)
  then show ?case
    by (auto simp: Let_def intro: reads_only_trans reads_only_refl)
qed (simp_all add: reads_only_def)


lemma only_reads_refl: "only_reads w w"
  by (simp add: only_reads_def)

lemma only_reads_trans: "only_reads w w1 \<Longrightarrow> only_reads w1 w2 \<Longrightarrow> only_reads w w2"
  unfolding only_reads_def by (elim exE conjE) (simp add: list_ex_iff, blast)

lemma only_reads_same_calls: "fsCalls w' = fsCalls w \<Longrightarrow> only_reads w w'"
  by (simp add: only_reads_def)

lemma only_reads_one: "\<not> writes c \<Longrightarrow> fsCalls w' = fsCalls w @ [c] \<Longrightarrow> only_reads w w'"
  by (simp add: only_reads_def)

lemma reads_only_only_reads: "reads_only w w' \<Longrightarrow> only_reads w w'"
  by (simp add: reads_only_def only_reads_def)

lemma findMatchingFiles_reads_only:
  "reads_only w (snd (findMatchingFiles cfg fs dir exts results w))"
proof (cases "lookup fs dir")
  case None
  then show ?thesis by (simp add: findMatchingFiles_def reads_only_called)
next
  case (Some n)
  then show ?thesis
    using findMatchingFiles_node_reads_only(1)[of "(results, w)" cfg exts dir n]
    by (simp add: findMatchingFiles_def)
qed

lemma sameDirLoop_cache:
  "sameDirLoop cfg fs P d b exts w = (r, w') \<Longrightarrow>
     scriptCache w' = (case r of Some p \<Rightarrow> (scriptCache w)(P \<mapsto> Some p) | None \<Rightarrow> scriptCache w)"
proof (induction exts arbitrary: w)
  case Nil
  then show ?case by auto
next
  case (Cons ext exts)
  show ?case
  proof (cases "existsSync fs (path_join [d, b @ ext])")
    case True
    with Cons.prems show ?thesis by (auto simp: Let_def)
  next
    case False
    with Cons.prems have "sameDirLoop cfg fs P d b exts (called (ExistsSync (path_join [d, b @ ext])) w) = (r, w')"
      by (simp add: Let_def)
    from Cons.IH[OF this] show ?thesis by (simp split: option.splits)
  qed
qed

lemma sameDirLoop_only_reads:
  "only_reads w (snd (sameDirLoop cfg fs P d b exts w))"
proof (induction exts arbitrary: w)
  case Nil
  then show ?case by (simp add: only_reads_refl)
next
  case (Cons ext exts)
  have 1: "only_reads w (called (ExistsSync (path_join [d, b @ ext])) w)"
    by (rule only_reads_one) simp_all
  show ?case
  proof (cases "existsSync fs (path_join [d, b @ ext])")
    case True
    then show ?thesis by (simp add: Let_def only_reads_def)
  next
    case False
    then show ?thesis
      using only_reads_trans[OF 1 Cons.IH] by (simp add: Let_def)
  qed
qed

lemma sameDirLoop_found:
  assumes "ext \<in> set exts" and "existsSync fs (path_join [d, b @ ext])"
  shows "\<exists>pre ext0 post. exts = pre @ ext0 # post \<and>
           \<not> list_ex (\<lambda>e. existsSync fs (path_join [d, b @ e])) pre \<and>
           existsSync fs (path_join [d, b @ ext0]) \<and>
           fst (sameDirLoop cfg fs P d b exts w) = Some (path_join [d, b @ ext0]) \<and>
           fsCalls (snd (sameDirLoop cfg fs P d b exts w)) =
             fsCalls w @ map (\<lambda>e. ExistsSync (path_join [d, b @ e])) (pre @ [ext0])"
  using assms
proof (induction exts arbitrary: w)
  case Nil
  then show ?case by simp
next
  case (Cons x exts)
  show ?case
  proof (cases "existsSync fs (path_join [d, b @ x])")
    case True
    then have "x # exts = [] @ x # exts \<and>
           \<not> list_ex (\<lambda>e. existsSync fs (path_join [d, b @ e])) [] \<and>
           existsSync fs (path_join [d, b @ x]) \<and>
           fst (sameDirLoop cfg fs P d b (x # exts) w) = Some (path_join [d, b @ x]) \<and>
           fsCalls (snd (sameDirLoop cfg fs P d b (x # exts) w)) =
             fsCalls w @ map (\<lambda>e. ExistsSync (path_join [d, b @ e])) ([] @ [x])"
      by (simp add: Let_def)
    then show ?thesis by blast
  next
    case False
    with Cons.prems have "ext \<in> set exts" by auto
    from Cons.IH[OF this Cons.prems(2), of "called (ExistsSync (path_join [d, b @ x])) w"]
    obtain pre ext0 post where *: "exts = pre @ ext0 # post"
      "\<not> list_ex (\<lambda>e. existsSync fs (path_join [d, b @ e])) pre"
      "existsSync fs (path_join [d, b @ ext0])"
      "fst (sameDirLoop cfg fs P d b exts (called (ExistsSync (path_join [d, b @ x])) w))
         = Some (path_join [d, b @ ext0])"
      "fsCalls (snd (sameDirLoop cfg fs P d b exts (called (ExistsSync (path_join [d, b @ x])) w))) =
         fsCalls (called (ExistsSync (path_join [d, b @ x])) w)
           @ map (\<lambda>e. ExistsSync (path_join [d, b @ e])) (pre @ [ext0])"
      by blast
    from * False have "x # exts = (x # pre) @ ext0 # post \<and>
           \<not> list_ex (\<lambda>e. existsSync fs (path_join [d, b @ e])) (x # pre) \<and>
           existsSync fs (path_join [d, b @ ext0]) \<and>
           fst (sameDirLoop cfg fs P d b (x # exts) w) = Some (path_join [d, b @ ext0]) \<and>
           fsCalls (snd (sameDirLoop cfg fs P d b (x # exts) w)) =
             fsCalls w @ map (\<lambda>e. ExistsSync (path_join [d, b @ e])) ((x # pre) @ [ext0])"
      by (simp add: Let_def)
    then show ?thesis by blast
  qed
qed

lemma searchLoop_cache:
  "searchLoop cfg fs P b dirs w = (r, w') \<Longrightarrow>
     scriptCache w' = (case r of Some p \<Rightarrow> (scriptCache w)(P \<mapsto> Some p) | None \<Rightarrow> scriptCache w)"
proof (induction dirs arbitrary: w)
  case Nil
  then show ?case by auto
next
  case (Cons dir dirs)
  define w1 where "w1 = called (ExistsSync (searchDirOf cfg dir)) w"
  show ?case
  proof (cases "existsSync fs (searchDirOf cfg dir)")
    case False
    with Cons.prems have "searchLoop cfg fs P b dirs
        (log cfg (''search directory does not exist: '' @ searchDirOf cfg dir) Warn w1) = (r, w')"
      by (simp add: Let_def w1_def)
    from Cons.IH[OF this] show ?thesis by (simp add: w1_def split: option.splits)
  next
    case True
    obtain files w2 where f: "findMatchingFiles cfg fs (searchDirOf cfg dir) (extensions cfg) [] w1 = (files, w2)"
      by (cases "findMatchingFiles cfg fs (searchDirOf cfg dir) (extensions cfg) [] w1")
    from findMatchingFiles_reads_only[of w1 cfg fs "searchDirOf cfg dir" "extensions cfg" "[]"] f
    have c2: "scriptCache w2 = scriptCache w" by (simp add: reads_only_def w1_def)
    show ?thesis
    proof (cases "find (matches b) files")
      case None
      with Cons.prems True f have "searchLoop cfg fs P b dirs w2 = (r, w')"
        by (simp add: Let_def w1_def)
      from Cons.IH[OF this] c2 show ?thesis by (simp split: option.splits)
    next
      case (Some found)
      with Cons.prems True f have "r = Some found"
        and "scriptCache w' = (scriptCache w2)(P \<mapsto> Some found)"
        by (auto simp: Let_def w1_def)
      with c2 show ?thesis by simp
    qed
  qed
qed

lemma searchLoop_only_reads:
  "only_reads w (snd (searchLoop cfg fs P b dirs w))"
proof (induction dirs arbitrary: w)
  case Nil
  then show ?case by (simp add: only_reads_refl)
next
  case (Cons dir dirs)
  define w1 where "w1 = called (ExistsSync (searchDirOf cfg dir)) w"
  have 1: "only_reads w w1" unfolding w1_def by (rule only_reads_one) simp_all
  show ?case
  proof (cases "existsSync fs (searchDirOf cfg dir)")
    case False
    have "only_reads w1 (log cfg (''search directory does not exist: '' @ searchDirOf cfg dir) Warn w1)"
      by (rule only_reads_same_calls) simp
    from only_reads_trans[OF only_reads_trans[OF 1 this] Cons.IH] False
    show ?thesis by (simp add: Let_def w1_def)
  next
    case True
    obtain files w2 where f: "findMatchingFiles cfg fs (searchDirOf cfg dir) (extensions cfg) [] w1 = (files, w2)"
      by (cases "findMatchingFiles cfg fs (searchDirOf cfg dir) (extensions cfg) [] w1")
    from findMatchingFiles_reads_only[of w1 cfg fs "searchDirOf cfg dir" "extensions cfg" "[]"] f
    have 2: "only_reads w w2" using 1 by (auto intro: only_reads_trans reads_only_only_reads)
    show ?thesis
    proof (cases "find (matches b) files")
      case None
      with True f only_reads_trans[OF 2 Cons.IH[of w2]] show ?thesis
        by (simp add: Let_def w1_def)
    next
      case (Some found)
      have "only_reads w2 ((log cfg (''found matching script file: ''
                                  @ path_relative (cwd fs) (rootDir cfg) found) Debug w2)
                        \<lparr>scriptCache := (scriptCache w2)(P \<mapsto> Some found)\<rparr>)"
        by (rule only_reads_same_calls) simp
      from only_reads_trans[OF 2 this] Some True f show ?thesis
        by (simp add: Let_def w1_def)
    qed
  qed
qed

lemma createPathResolver_hit:
  "scriptCache w P = Some cached \<Longrightarrow> createPathResolver cfg fs P w = (cached, w)"
  by (simp add: createPathResolver_def)

lemma createPathResolver_miss:
  assumes miss: "scriptCache w P = None"
    and res: "createPathResolver cfg fs P w = (r, w')"
  shows "scriptCache w' = (scriptCache w)(P \<mapsto> r)" and "only_reads w w'"
proof -
  define b where "b = path_basename P ''.vue''"
  define s where "s = (if useSameDir cfg
                    then sameDirLoop cfg fs P (path_dirname P) b (extensions cfg) w
                    else (None, w))"
  obtain r1 w1 where s1: "s = (r1, w1)" by (cases s)
  have c1: "scriptCache w1 = (case r1 of Some p \<Rightarrow> (scriptCache w)(P \<mapsto> Some p) | None \<Rightarrow> scriptCache w)"
    using s1 sameDirLoop_cache[of cfg fs P "path_dirname P" b "extensions cfg" w r1 w1]
    by (auto simp: s_def split: if_splits)
  have o1: "only_reads w w1"
    using s1 sameDirLoop_only_reads[of w cfg fs P "path_dirname P" b "extensions cfg"]
    by (auto simp: s_def only_reads_refl split: if_splits)
  have unf: "createPathResolver cfg fs P w =
      (case s of (Some sameDirPath, w1) \<Rightarrow> (Some sameDirPath, w1)
       | (None, w1) \<Rightarrow>
          (case searchLoop cfg fs P b (scriptPaths cfg) w1 of
             (Some found, w2) \<Rightarrow> (Some found, w2)
           | (None, w2) \<Rightarrow>
               (None, (log cfg (''no script file found matching '' @ path_basename P []) Warn w2)
                        \<lparr>scriptCache := (scriptCache w2)(P \<mapsto> None)\<rparr>)))"
    using miss unfolding createPathResolver_def s_def b_def Let_def by simp
  show "scriptCache w' = (scriptCache w)(P \<mapsto> r)" and "only_reads w w'"
  proof (atomize (full), cases r1)
    case (Some p)
    with unf s1 res have "r = Some p" "w' = w1" by simp_all
    with c1 o1 Some show "scriptCache w' = (scriptCache w)(P \<mapsto> r) \<and> only_reads w w'" by simp
  next
    case None
    obtain r2 w2 where s2: "searchLoop cfg fs P b (scriptPaths cfg) w1 = (r2, w2)"
      by (cases "searchLoop cfg fs P b (scriptPaths cfg) w1")
    from searchLoop_cache[OF s2] c1 None
    have c2: "scriptCache w2 = (case r2 of Some p \<Rightarrow> (scriptCache w)(P \<mapsto> Some p) | None \<Rightarrow> scriptCache w)"
      by (simp split: option.splits)
    from searchLoop_only_reads[of w1 cfg fs P b "scriptPaths cfg"] s2 o1
    have o2: "only_reads w w2" by (auto intro: only_reads_trans)
    show "scriptCache w' = (scriptCache w)(P \<mapsto> r) \<and> only_reads w w'"
    proof (cases r2)
      case (Some p)
      with unf s1 None s2 res have "r = Some p" "w' = w2" by simp_all
      with c2 o2 Some show ?thesis by simp
    next
      case n2: None
      with unf s1 None s2 res have r: "r = None"
        and w': "w' = (log cfg (''no script file found matching '' @ path_basename P []) Warn w2)
                        \<lparr>scriptCache := (scriptCache w2)(P \<mapsto> None)\<rparr>"
        by simp_all
      have "only_reads w2 w'" unfolding w' by (rule only_reads_same_calls) simp
      with o2 have "only_reads w w'" by (rule only_reads_trans)
      with r w' c2 n2 show ?thesis by simp
    qed
  qed
qed

lemma createPathResolver_caches:
  assumes "createPathResolver cfg fs P w = (r, w')"
  shows "scriptCache w' P = Some r"
proof (cases "scriptCache w P")
  case None
  from createPathResolver_miss(1)[OF None assms] show ?thesis by simp
next
  case (Some cached)
  with assms show ?thesis by (simp add: createPathResolver_hit)
qed

lemma createPathResolver_keeps:
  assumes "scriptCache w q = Some c"
  shows "scriptCache (snd (createPathResolver cfg fs P w)) q = Some c"
proof (cases "scriptCache w P")
  case None
  with assms have "q \<noteq> P" by auto
  obtain r w' where r: "createPathResolver cfg fs P w = (r, w')"
    by (cases "createPathResolver cfg fs P w")
  from createPathResolver_miss(1)[OF None r] \<open>q \<noteq> P\<close> assms r show ?thesis by simp
next
  case (Some cached)
  with assms show ?thesis by (simp add: createPathResolver_hit)
qed

lemma createPathResolver_only_reads:
  "only_reads w (snd (createPathResolver cfg fs P w))"
proof (cases "scriptCache w P")
  case None
  obtain r w' where r: "createPathResolver cfg fs P w = (r, w')"
    by (cases "createPathResolver cfg fs P w")
  from createPathResolver_miss(2)[OF None r] r show ?thesis by simp
next
  case (Some cached)
  then show ?thesis by (simp add: createPathResolver_hit only_reads_refl)
qed

lemma resolveScriptPath_keeps:
  "scriptCache w q = Some c \<Longrightarrow> scriptCache (snd (resolveScriptPath cfg fs P w)) q = Some c"
  using createPathResolver_keeps[of w q c cfg fs P]
  by (auto simp: resolveScriptPath_def split: option.splits prod.splits)

lemma resolveScriptPath_only_reads:
  "only_reads w (snd (resolveScriptPath cfg fs P w))"
  using createPathResolver_only_reads[of w cfg fs P]
  by (auto simp: resolveScriptPath_def only_reads_refl split: option.splits prod.splits)

lemma transform_try_world:
  "snd (transform_try cfg fs code ident w) = snd (resolveScriptPath cfg fs ident w) \<or>
   snd (transform_try cfg fs code ident w) =
     called (ReadFileSync (the (projr (fst (resolveScriptPath cfg fs ident w)))))
       (snd (resolveScriptPath cfg fs ident w))"
  by (auto simp: transform_try_def Let_def split: prod.splits sum.splits option.splits)

lemma transform_try_keeps:
  assumes "scriptCache w q = Some c"
  shows "scriptCache (snd (transform_try cfg fs code ident w)) q = Some c"
  using transform_try_world[of cfg fs code ident w] resolveScriptPath_keeps[OF assms, of cfg fs ident]
  by auto

lemma transform_try_only_reads:
  "only_reads w (snd (transform_try cfg fs code ident w))"
proof -
  let ?w1 = "snd (resolveScriptPath cfg fs ident w)"
  have 1: "only_reads w ?w1" by (rule resolveScriptPath_only_reads)
  have 2: "only_reads ?w1 (called (ReadFileSync p) ?w1)" for p
    by (rule only_reads_one) simp_all
  from transform_try_world[of cfg fs code ident w] 1 only_reads_trans[OF 1 2]
  show ?thesis by auto
qed

lemma transform_world:
  "snd (transform cfg fs code ident w) = w \<or>
   snd (transform cfg fs code ident w) = snd (transform_try cfg fs code ident w) \<or>
   (\<exists>msg. snd (transform cfg fs code ident w) = log cfg msg Error (snd (transform_try cfg fs code ident w)))"
  by (auto simp: transform_def split: prod.splits sum.splits thrown.splits)

lemma transform_keeps:
  assumes "scriptCache w q = Some c"
  shows "scriptCache (snd (transform cfg fs code ident w)) q = Some c"
  using transform_world[of cfg fs code ident w] transform_try_keeps[OF assms, of cfg fs code ident] assms
  by auto

lemma transform_only_reads:
  "only_reads w (snd (transform cfg fs code ident w))"
proof -
  let ?w1 = "snd (transform_try cfg fs code ident w)"
  have 1: "only_reads w ?w1" by (rule transform_try_only_reads)
  have 2: "only_reads ?w1 (log cfg msg Error ?w1)" for msg
    by (rule only_reads_same_calls) simp
  from transform_world[of cfg fs code ident w] 1 only_reads_trans[OF 1 2] only_reads_refl[of w]
  show ?thesis by auto
qed

lemma invoke_keeps:
  "scriptCache w q = Some c \<Longrightarrow> scriptCache (invoke cfg x w) q = Some c"
proof (cases x)
  case (Pair fs i)
  assume "scriptCache w q = Some c"
  then show ?thesis unfolding Pair
    by (cases i) (simp_all add: resolveScriptPath_keeps transform_keeps)
qed

lemma invoke_only_reads: "only_reads w (invoke cfg x w)"
proof (cases x)
  case (Pair fs i)
  show ?thesis unfolding Pair
    by (cases i) (simp_all add: resolveScriptPath_only_reads transform_only_reads)
qed

lemma run_keeps:
  "scriptCache w q = Some c \<Longrightarrow> scriptCache (run cfg invocations w) q = Some c"
  unfolding run_def
  by (induction invocations arbitrary: w) (simp_all add: invoke_keeps)

lemma run_only_reads: "only_reads w (run cfg invocations w)"
  unfolding run_def
proof (induction invocations arbitrary: w)
  case Nil
  then show ?case by (simp add: only_reads_refl)
next
  case (Cons x xs)
  from only_reads_trans[OF invoke_only_reads Cons.IH] show ?case by simp
qed


section \<open>The resolution cache and the same-directory rule\<close>

text \<open>
  C1. Once the built-in resolver has returned \<open>r\<close> for the component path \<open>P\<close>, every
  later call on \<open>P\<close> returns \<open>r\<close> again, a script path or \<open>null\<close> alike, and leaves the
  state as it is: no file system call is made. This holds whatever the host calls in
  between and whatever the file system \<open>fs'\<close> has become, so a cached \<open>null\<close> stays when
  a matching file is created and a cached path stays when its file is deleted.
\<close>

theorem resolver_result_cached_forever:
  assumes "createPathResolver cfg fs P w = (r, w1)"
  shows "createPathResolver cfg fs' P (run cfg invocations w1) = (r, run cfg invocations w1)"
proof -
  from assms have "scriptCache w1 P = Some r" by (rule createPathResolver_caches)
  then have "scriptCache (run cfg invocations w1) P = Some r" by (rule run_keeps)
  then show ?thesis by (rule createPathResolver_hit)
qed

theorem resolver_result_cached_forever_witness:
  "createPathResolver sample_config bare_fs ''/proj/src/views/Foo.vue'' initial_world =
     (None, snd (createPathResolver sample_config bare_fs ''/proj/src/views/Foo.vue'' initial_world)) \<and>
   fst (createPathResolver sample_config sample_fs ''/proj/src/views/Foo.vue'' initial_world) =
     Some ''/proj/src/scripts/Foo.js'' \<and>
   createPathResolver sample_config sample_fs ''/proj/src/views/Foo.vue''
     (run sample_config [(sample_fs, Transform ''<template><p/></template>'' ''/proj/src/views/Bar.vue'')]
        (snd (createPathResolver sample_config bare_fs ''/proj/src/views/Foo.vue'' initial_world))) =
     (None,
      run sample_config [(sample_fs, Transform ''<template><p/></template>'' ''/proj/src/views/Bar.vue'')]
        (snd (createPathResolver sample_config bare_fs ''/proj/src/views/Foo.vue'' initial_world)))"
proof -
  have "fst (createPathResolver sample_config bare_fs ''/proj/src/views/Foo.vue'' initial_world) = None"
    by code_simp
  then have h: "createPathResolver sample_config bare_fs ''/proj/src/views/Foo.vue'' initial_world =
     (None, snd (createPathResolver sample_config bare_fs ''/proj/src/views/Foo.vue'' initial_world))"
    by (simp add: prod_eq_iff)
  have f: "fst (createPathResolver sample_config sample_fs ''/proj/src/views/Foo.vue'' initial_world) =
     Some ''/proj/src/scripts/Foo.js''"
    by code_simp
  from h f resolver_result_cached_forever[OF h, of sample_fs
      "[(sample_fs, Transform ''<template><p/></template>'' ''/proj/src/views/Bar.vue'')]"]
  show ?thesis by blast
qed

text \<open>
  C5. With \<open>useSameDir\<close> on and \<open>P\<close> not yet in the cache, when the file
  \<open>dir/Foo<ext>\<close> exists for some configured suffix, the resolver returns the
  same-directory file of the first configured suffix for which it exists, and the only
  file system calls are the existence tests of the same-directory candidates up to that
  one: no search directory is looked at, whatever it contains.
\<close>

theorem same_directory_script_preferred:
  assumes "useSameDir cfg" and "scriptCache w P = None"
    and "ext \<in> set (extensions cfg)" and "existsSync fs (sameDirPathOf P ext)"
  shows "\<exists>pre ext0 post. extensions cfg = pre @ ext0 # post \<and>
           \<not> list_ex (\<lambda>e. existsSync fs (sameDirPathOf P e)) pre \<and>
           existsSync fs (sameDirPathOf P ext0) \<and>
           fst (createPathResolver cfg fs P w) = Some (sameDirPathOf P ext0) \<and>
           fsCalls (snd (createPathResolver cfg fs P w)) =
             fsCalls w @ map (\<lambda>e. ExistsSync (sameDirPathOf P e)) (pre @ [ext0])"
proof -
  let ?d = "path_dirname P" and ?b = "path_basename P ''.vue''"
  let ?s = "sameDirLoop cfg fs P ?d ?b (extensions cfg) w"
  from assms(4) have e: "existsSync fs (path_join [?d, ?b @ ext])"
    by (simp add: sameDirPathOf_def)
  from sameDirLoop_found[OF assms(3) e, of cfg P w]
  obtain pre ext0 post where *: "extensions cfg = pre @ ext0 # post"
    "\<not> list_ex (\<lambda>e. existsSync fs (path_join [?d, ?b @ e])) pre"
    "existsSync fs (path_join [?d, ?b @ ext0])"
    "fst ?s = Some (path_join [?d, ?b @ ext0])"
    "fsCalls (snd ?s) = fsCalls w @ map (\<lambda>e. ExistsSync (path_join [?d, ?b @ e])) (pre @ [ext0])"
    by blast
  from *(4) obtain w1 where s: "?s = (Some (path_join [?d, ?b @ ext0]), w1)"
    by (cases ?s) auto
  then have "createPathResolver cfg fs P w = (Some (path_join [?d, ?b @ ext0]), w1)"
    using assms(1,2) unfolding createPathResolver_def Let_def by simp
  with * s have "extensions cfg = pre @ ext0 # post \<and>
           \<not> list_ex (\<lambda>e. existsSync fs (sameDirPathOf P e)) pre \<and>
           existsSync fs (sameDirPathOf P ext0) \<and>
           fst (createPathResolver cfg fs P w) = Some (sameDirPathOf P ext0) \<and>
           fsCalls (snd (createPathResolver cfg fs P w)) =
             fsCalls w @ map (\<lambda>e. ExistsSync (sameDirPathOf P e)) (pre @ [ext0])"
    unfolding sameDirPathOf_def by simp
  then show ?thesis by blast
qed

theorem same_directory_script_preferred_witness:
  "(useSameDir sample_config \<and> scriptCache initial_world ''/proj/src/views/Bar.vue'' = None \<and>
    ''.js'' \<in> set (extensions sample_config) \<and>
    existsSync sample_fs (sameDirPathOf ''/proj/src/views/Bar.vue'' ''.js'') \<and>
    sameDirPathOf ''/proj/src/views/Bar.vue'' ''.js'' = ''/proj/src/views/Bar.js'' \<and>
    existsSync sample_fs ''/proj/src/scripts/Bar.js'') \<and>
   (\<exists>pre ext0 post. extensions sample_config = pre @ ext0 # post \<and>
      \<not> list_ex (\<lambda>e. existsSync sample_fs (sameDirPathOf ''/proj/src/views/Bar.vue'' e)) pre \<and>
      existsSync sample_fs (sameDirPathOf ''/proj/src/views/Bar.vue'' ext0) \<and>
      fst (createPathResolver sample_config sample_fs ''/proj/src/views/Bar.vue'' initial_world) =
        Some (sameDirPathOf ''/proj/src/views/Bar.vue'' ext0) \<and>
      fsCalls (snd (createPathResolver sample_config sample_fs ''/proj/src/views/Bar.vue'' initial_world)) =
        fsCalls initial_world
          @ map (\<lambda>e. ExistsSync (sameDirPathOf ''/proj/src/views/Bar.vue'' e)) (pre @ [ext0]))"
proof -
  have 1: "useSameDir sample_config" by code_simp
  have 2: "scriptCache initial_world ''/proj/src/views/Bar.vue'' = None"
    by (simp add: initial_world_def)
  have 3: "''.js'' \<in> set (extensions sample_config)" by (simp add: sample_config_def)
  have 4: "existsSync sample_fs (sameDirPathOf ''/proj/src/views/Bar.vue'' ''.js'')" by code_simp
  have 5: "sameDirPathOf ''/proj/src/views/Bar.vue'' ''.js'' = ''/proj/src/views/Bar.js''" by code_simp
  have 6: "existsSync sample_fs ''/proj/src/scripts/Bar.js''" by code_simp
  from 1 2 3 4 5 6 same_directory_script_preferred[OF 1 2 3 4]
  show ?thesis by blast
qed

text \<open>
  C10. In every run of resolver and hook invocations, each call of the \<open>fs\<close> module
  that the plugin makes is \<open>existsSync\<close>, \<open>readdirSync\<close> or \<open>readFileSync\<close>: none writes.
  The file system is an argument of the model that no function returns changed.
\<close>

theorem plugin_never_writes:
  "\<exists>calls. fsCalls (run cfg invocations w) = fsCalls w @ calls \<and> \<not> list_ex writes calls"
  using run_only_reads[of w cfg invocations] unfolding only_reads_def .

section \<open>The transform hook\<close>

lemma transform_not_vue:
  "\<not> endsWith ident ''.vue'' \<Longrightarrow> transform cfg fs code ident w = (Inr None, w)"
  by (simp add: transform_def)

lemma transform_caught:
  assumes "endsWith ident ''.vue''"
    and "transform_try cfg fs code ident w = (Inl (ThrownObject error), w1)"
  shows "fst (transform cfg fs code ident w) = Inr None"
    and "\<exists>msg. console (snd (transform cfg fs code ident w)) =
           console w1 @ [(ConsoleError, ''[vue-script-merger] ERROR:'', msg)]"
  using assms by (simp_all add: transform_def console_log_Error)

lemma transform_caught_nullish:
  assumes "endsWith ident ''.vue''"
  shows "transform_try cfg fs code ident w = (Inl ThrownNull, w1) \<Longrightarrow>
           transform cfg fs code ident w = (Inl (ThrownObject (stack_of_nullish ''null'')), w1)"
    and "transform_try cfg fs code ident w = (Inl ThrownUndefined, w1) \<Longrightarrow>
           transform cfg fs code ident w = (Inl (ThrownObject (stack_of_nullish ''undefined'')), w1)"
  using assms by (simp_all add: transform_def)

lemma transform_returned:
  assumes "endsWith ident ''.vue''" and "transform_try cfg fs code ident w = (Inr result, w1)"
  shows "transform cfg fs code ident w = (Inr result, w1)"
  using assms by (simp add: transform_def)

lemma transform_try_read_failure:
  assumes "resolveScriptPath cfg fs ident w = (Inr (Some scriptPath), w1)"
    and "scriptPath \<noteq> []" and "readFileSync fs scriptPath = Inl err"
  shows "transform_try cfg fs code ident w =
           (Inl (ThrownObject err), called (ReadFileSync scriptPath) w1)"
  using assms by (simp add: transform_try_def Let_def)

lemma transform_try_default:
  assumes "resolveScriptPath cfg fs ident w = (Inr (Some scriptPath), w1)"
    and "scriptPath \<noteq> []" and "readFileSync fs scriptPath = Inr scriptContent"
    and "custom_transform cfg = None"
  shows "transform_try cfg fs code ident w =
    (Inr (Some (defaultTransform code (commentOf cfg fs ident scriptPath) scriptContent)),
     called (ReadFileSync scriptPath) w1)"
  using assms by (simp add: transform_try_def Let_def)

lemma transform_try_no_script:
  assumes "fst (resolveScriptPath cfg fs ident w) = Inr None"
  shows "transform_try cfg fs code ident w = (Inr None, snd (resolveScriptPath cfg fs ident w))"
  using assms by (cases "resolveScriptPath cfg fs ident w") (simp add: transform_try_def)

text \<open>
  What the hook does catch: when the \<open>try\<close> block throws an object, a failed read of the
  script file included, the hook returns \<open>null\<close> after one line printed with
  \<open>console.error\<close> at level \<open>ERROR\<close>; and it returns, whatever the input, when what the
  \<open>try\<close> block throws is neither \<open>null\<close> nor \<open>undefined\<close>, which is so without overrides.
\<close>

lemma transform_catches_objects:
  assumes "fst (transform_try cfg fs code ident w) \<noteq> Inl ThrownNull"
    and "fst (transform_try cfg fs code ident w) \<noteq> Inl ThrownUndefined"
  shows "\<exists>result. fst (transform cfg fs code ident w) = Inr result"
  using assms
  by (auto simp: transform_def split: prod.splits sum.splits thrown.splits)

lemma transform_try_throws_from_override:
  assumes "custom_resolveScriptPath cfg = None" and "custom_transform cfg = None"
  shows "fst (transform_try cfg fs code ident w) \<noteq> Inl ThrownNull"
    and "fst (transform_try cfg fs code ident w) \<noteq> Inl ThrownUndefined"
  using assms
  by (auto simp: transform_try_def resolveScriptPath_def Let_def
      split: prod.splits sum.splits option.splits)

lemma transform_never_raises_without_overrides:
  assumes "custom_resolveScriptPath cfg = None" and "custom_transform cfg = None"
  shows "\<exists>result. fst (transform cfg fs code ident w) = Inr result"
  by (rule transform_catches_objects[OF transform_try_throws_from_override[OF assms]])

lemma transform_read_failure:
  assumes "endsWith ident ''.vue''"
    and "resolveScriptPath cfg fs ident w = (Inr (Some scriptPath), w1)"
    and "scriptPath \<noteq> []" and "readFileSync fs scriptPath = Inl err"
  shows "fst (transform cfg fs code ident w) = Inr None"
    and "\<exists>msg. console (snd (transform cfg fs code ident w)) =
           console w1 @ [(ConsoleError, ''[vue-script-merger] ERROR:'', msg)]"
proof -
  note t = transform_try_read_failure[OF assms(2-4), of code]
  show "fst (transform cfg fs code ident w) = Inr None"
    by (rule transform_caught(1)[OF assms(1) t])
  from transform_caught(2)[OF assms(1) t]
  show "\<exists>msg. console (snd (transform cfg fs code ident w)) =
           console w1 @ [(ConsoleError, ''[vue-script-merger] ERROR:'', msg)]"
    by simp
qed

text \<open>
  C6. The hook does raise. The \<open>catch\<close> block reads \<open>error.stack\<close> of what it caught, so
  when a \<open>resolveScriptPath\<close> override throws \<open>null\<close>, the hook throws a \<open>TypeError\<close> to
  the host and prints nothing, where the claim has it return \<open>null\<close> after an error line.
\<close>

theorem transform_raises_on_thrown_null:
  "endsWith ''/proj/src/views/Foo.vue'' ''.vue'' \<and>
   custom_resolveScriptPath throwing_config = Some throwing_override \<and>
   throwing_override sample_fs ''/proj/src/views/Foo.vue'' = Inl ThrownNull \<and>
   fst (transform throwing_config sample_fs ''<template><p/></template>'' ''/proj/src/views/Foo.vue''
          initial_world) = Inl (ThrownObject (stack_of_nullish ''null'')) \<and>
   message (stack_of_nullish ''null'') =
     ''Cannot read properties of null (reading '' @ [CHR 0x27] @ ''stack'' @ [CHR 0x27] @ '')'' \<and>
   console (snd (transform throwing_config sample_fs ''<template><p/></template>''
                   ''/proj/src/views/Foo.vue'' initial_world)) = []"
proof (intro conjI)
  show "custom_resolveScriptPath throwing_config = Some throwing_override"
    by (simp add: throwing_config_def)
qed code_simp+

lemma world_neq_called: "called c w \<noteq> w"
proof
  assume "called c w = w"
  then have "fsCalls (called c w) = fsCalls w" by simp
  then show False by simp
qed

lemma world_neq_log_Error: "log cfg msg Error w \<noteq> w"
proof
  assume "log cfg msg Error w = w"
  then have "console (log cfg msg Error w) = console w" by simp
  then show False by (simp add: console_log_Error)
qed

lemma world_neq_log_Error_called: "log cfg msg Error (called c w) \<noteq> w"
proof
  assume "log cfg msg Error (called c w) = w"
  then have "fsCalls (log cfg msg Error (called c w)) = fsCalls w" by simp
  then show False by simp
qed

lemma transform_work_after_resolution:
  assumes "endsWith ident ''.vue''"
    and "fst (resolveScriptPath cfg fs ident w) \<noteq> Inr None"
    and "fst (resolveScriptPath cfg fs ident w) \<noteq> Inr (Some [])"
  shows "transform cfg fs code ident w \<noteq> (Inr None, snd (resolveScriptPath cfg fs ident w))"
proof -
  obtain r w1 where r: "resolveScriptPath cfg fs ident w = (r, w1)"
    by (cases "resolveScriptPath cfg fs ident w")
  show ?thesis
  proof (cases r)
    case (Inl t)
    with r have "transform_try cfg fs code ident w = (Inl t, w1)"
      by (simp add: transform_try_def)
    with assms(1) r show ?thesis
      by (cases t) (simp_all add: transform_def world_neq_log_Error)
  next
    case (Inr found)
    with r assms(2,3) obtain scriptPath where sp: "found = Some scriptPath" "scriptPath \<noteq> []"
      by (cases found) auto
    let ?w2 = "called (ReadFileSync scriptPath) w1"
    from r Inr sp have "snd (transform_try cfg fs code ident w) = ?w2"
      by (simp add: transform_try_def Let_def split: sum.splits option.splits)
    then obtain res where t: "transform_try cfg fs code ident w = (res, ?w2)"
      by (cases "transform_try cfg fs code ident w") auto
    show ?thesis
    proof (cases res)
      case (Inl t')
      with t assms(1) r show ?thesis
        by (cases t') (simp_all add: transform_def world_neq_log_Error_called)
    next
      case (Inr result)
      with t assms(1) r show ?thesis
        by (simp add: transform_def world_neq_called)
    qed
  qed
qed

text \<open>
  C7. The hook returns \<open>null\<close> without work in exactly two cases. For a path that does
  not end with \<open>.vue\<close> it returns \<open>null\<close> and does nothing at all. For a component it
  returns \<open>null\<close> with nothing done after the resolution (no file read, nothing printed)
  exactly when resolution finds no script path, that is \<open>null\<close> or, from an override, the
  empty string. Every other \<open>null\<close> comes with a read of the script or with a printed
  failure.
\<close>

theorem transform_null_without_work:
  "(\<not> endsWith ident ''.vue'' \<longrightarrow> transform cfg fs code ident w = (Inr None, w)) \<and>
   (endsWith ident ''.vue'' \<longrightarrow>
      (transform cfg fs code ident w = (Inr None, snd (resolveScriptPath cfg fs ident w)) \<longleftrightarrow>
       fst (resolveScriptPath cfg fs ident w) = Inr None \<or>
       fst (resolveScriptPath cfg fs ident w) = Inr (Some [])))"
proof (intro conjI impI)
  assume "\<not> endsWith ident ''.vue''"
  then show "transform cfg fs code ident w = (Inr None, w)" by (rule transform_not_vue)
next
  assume v: "endsWith ident ''.vue''"
  show "transform cfg fs code ident w = (Inr None, snd (resolveScriptPath cfg fs ident w)) \<longleftrightarrow>
       fst (resolveScriptPath cfg fs ident w) = Inr None \<or>
       fst (resolveScriptPath cfg fs ident w) = Inr (Some [])"
  proof
    assume "transform cfg fs code ident w = (Inr None, snd (resolveScriptPath cfg fs ident w))"
    with transform_work_after_resolution[OF v, of cfg fs w code]
    show "fst (resolveScriptPath cfg fs ident w) = Inr None \<or>
       fst (resolveScriptPath cfg fs ident w) = Inr (Some [])" by blast
  next
    assume "fst (resolveScriptPath cfg fs ident w) = Inr None \<or>
       fst (resolveScriptPath cfg fs ident w) = Inr (Some [])"
    then have "transform_try cfg fs code ident w = (Inr None, snd (resolveScriptPath cfg fs ident w))"
      by (cases "resolveScriptPath cfg fs ident w") (auto simp: transform_try_def)
    from transform_returned[OF v this]
    show "transform cfg fs code ident w = (Inr None, snd (resolveScriptPath cfg fs ident w))" .
  qed
qed

theorem transform_null_without_work_witness:
  "(\<not> endsWith ''/proj/src/main.js'' ''.vue'' \<and>
    fst (transform sample_config sample_fs ''import x'' ''/proj/src/main.js'' initial_world) = Inr None \<and>
    fsCalls (snd (transform sample_config sample_fs ''import x'' ''/proj/src/main.js'' initial_world)) = []) \<and>
   (endsWith ''/proj/src/views/Foo.vue'' ''.vue'' \<and>
    fst (resolveScriptPath sample_config bare_fs ''/proj/src/views/Foo.vue'' initial_world) = Inr None \<and>
    transform sample_config bare_fs ''<template><p/></template>'' ''/proj/src/views/Foo.vue'' initial_world =
      (Inr None, snd (resolveScriptPath sample_config bare_fs ''/proj/src/views/Foo.vue'' initial_world))) \<and>
   (fst (resolveScriptPath sample_config locked_fs ''/proj/src/views/Foo.vue'' initial_world) =
      Inr (Some ''/proj/src/views/Foo.js'') \<and>
    fst (transform sample_config locked_fs ''<template><p/></template>'' ''/proj/src/views/Foo.vue''
           initial_world) = Inr None \<and>
    transform sample_config locked_fs ''<template><p/></template>'' ''/proj/src/views/Foo.vue''
      initial_world \<noteq>
      (Inr None, snd (resolveScriptPath sample_config locked_fs ''/proj/src/views/Foo.vue'' initial_world)))"
proof -
  have 1: "\<not> endsWith ''/proj/src/main.js'' ''.vue''" by code_simp
  have 2: "endsWith ''/proj/src/views/Foo.vue'' ''.vue''" by code_simp
  have 3: "fst (resolveScriptPath sample_config bare_fs ''/proj/src/views/Foo.vue'' initial_world) = Inr None"
    by code_simp
  have 4: "fsCalls initial_world = []" by (simp add: initial_world_def)
  have 5: "fst (resolveScriptPath sample_config locked_fs ''/proj/src/views/Foo.vue'' initial_world) =
      Inr (Some ''/proj/src/views/Foo.js'')" by code_simp
  have 6: "fst (transform sample_config locked_fs ''<template><p/></template>'' ''/proj/src/views/Foo.vue''
           initial_world) = Inr None" by code_simp
  from transform_null_without_work[of "''/proj/src/main.js''" sample_config sample_fs "''import x''"
      initial_world] 1 4
  have a: "fst (transform sample_config sample_fs ''import x'' ''/proj/src/main.js'' initial_world) = Inr None \<and>
    fsCalls (snd (transform sample_config sample_fs ''import x'' ''/proj/src/main.js'' initial_world)) = []"
    by simp
  from transform_null_without_work[of "''/proj/src/views/Foo.vue''" sample_config bare_fs
      "''<template><p/></template>''" initial_world] 2 3
  have b: "transform sample_config bare_fs ''<template><p/></template>'' ''/proj/src/views/Foo.vue'' initial_world =
      (Inr None, snd (resolveScriptPath sample_config bare_fs ''/proj/src/views/Foo.vue'' initial_world))"
    by blast
  from transform_null_without_work[of "''/proj/src/views/Foo.vue''" sample_config locked_fs
      "''<template><p/></template>''" initial_world] 2 5
  have c: "transform sample_config locked_fs ''<template><p/></template>'' ''/proj/src/views/Foo.vue''
      initial_world \<noteq>
      (Inr None, snd (resolveScriptPath sample_config locked_fs ''/proj/src/views/Foo.vue'' initial_world))"
    by simp
  from 1 2 3 5 6 a b c show ?thesis by blast
qed

section \<open>Overrides, unmatched patterns and two failing inputs\<close>

lemma GetSubstitution_no_dollar:
  "CHR ''$'' \<notin> set r \<Longrightarrow> GetSubstitution m a b r = r"
  by (induction m a b r rule: GetSubstitution.induct) auto

lemma resolveScriptPath_custom:
  "custom_resolveScriptPath cfg = Some f \<Longrightarrow> resolveScriptPath cfg fs p w = (f fs p, w)"
  by (simp add: resolveScriptPath_def)

lemma transform_try_custom_cache:
  assumes "custom_resolveScriptPath cfg = Some f"
  shows "scriptCache (snd (transform_try cfg fs code ident w)) = scriptCache w"
    and "fst (transform_try cfg fs code ident (w\<lparr>scriptCache := c\<rparr>)) = fst (transform_try cfg fs code ident w)"
  using assms
  by (auto simp: transform_try_def resolveScriptPath_def Let_def
      split: sum.splits option.splits)

lemma transform_custom_cache:
  assumes "custom_resolveScriptPath cfg = Some f"
  shows "scriptCache (snd (transform cfg fs code ident w)) = scriptCache w"
    and "fst (transform cfg fs code ident (w\<lparr>scriptCache := c\<rparr>)) = fst (transform cfg fs code ident w)"
proof -
  show "scriptCache (snd (transform cfg fs code ident w)) = scriptCache w"
    using transform_world[of cfg fs code ident w] transform_try_custom_cache(1)[OF assms, where fs = fs and code = code and ident = ident and w = w]
    by auto
  obtain r w1 where 1: "transform_try cfg fs code ident w = (r, w1)"
    by (cases "transform_try cfg fs code ident w")
  obtain r' w1' where 2: "transform_try cfg fs code ident (w\<lparr>scriptCache := c\<rparr>) = (r', w1')"
    by (cases "transform_try cfg fs code ident (w\<lparr>scriptCache := c\<rparr>)")
  from transform_try_custom_cache(2)[OF assms, where fs = fs and code = code and ident = ident and w = w and c = c] 1 2 have "r' = r" by simp
  with 1 2 show "fst (transform cfg fs code ident (w\<lparr>scriptCache := c\<rparr>)) = fst (transform cfg fs code ident w)"
    by (auto simp: transform_def split: sum.splits thrown.splits)
qed

lemma invoke_custom_cache:
  assumes "custom_resolveScriptPath cfg = Some f"
  shows "scriptCache (invoke cfg x w) = scriptCache w"
proof (cases x)
  case (Pair fs i)
  show ?thesis unfolding Pair
    by (cases i) (simp_all add: resolveScriptPath_custom[OF assms] transform_custom_cache(1)[OF assms])
qed

lemma run_custom_cache:
  assumes "custom_resolveScriptPath cfg = Some f"
  shows "scriptCache (run cfg invocations w) = scriptCache w"
  unfolding run_def
  by (induction invocations arbitrary: w) (simp_all add: invoke_custom_cache[OF assms])

lemma transform_custom_none:
  assumes "custom_resolveScriptPath cfg = Some f" and "endsWith ident ''.vue''"
    and "f fs ident = Inr None \<or> f fs ident = Inr (Some [])"
  shows "transform cfg fs code ident w = (Inr None, w)"
proof -
  from assms(3) have "transform_try cfg fs code ident w = (Inr None, w)"
    by (auto simp: transform_try_def resolveScriptPath_custom[OF assms(1)])
  from transform_returned[OF assms(2) this] show ?thesis .
qed

lemma transform_custom_found:
  assumes "custom_resolveScriptPath cfg = Some f" and "endsWith ident ''.vue''"
    and "f fs ident = Inr (Some scriptPath)" and "scriptPath \<noteq> []"
  shows "readFileSync fs scriptPath = Inr scriptContent \<Longrightarrow> custom_transform cfg = None \<Longrightarrow>
           transform cfg fs code ident w =
             (Inr (Some (defaultTransform code (commentOf cfg fs ident scriptPath) scriptContent)),
              called (ReadFileSync scriptPath) w)"
    and "fsCalls (snd (transform cfg fs code ident w)) = fsCalls w @ [ReadFileSync scriptPath]"
proof -
  have r: "resolveScriptPath cfg fs ident w = (Inr (Some scriptPath), w)"
    using assms(3) by (simp add: resolveScriptPath_custom[OF assms(1)])
  show "transform cfg fs code ident w =
             (Inr (Some (defaultTransform code (commentOf cfg fs ident scriptPath) scriptContent)),
              called (ReadFileSync scriptPath) w)"
    if "readFileSync fs scriptPath = Inr scriptContent" "custom_transform cfg = None"
    by (rule transform_returned[OF assms(2) transform_try_default[OF r assms(4) that]])
  have "snd (transform_try cfg fs code ident w) = called (ReadFileSync scriptPath) w"
    using r assms(4) by (simp add: transform_try_def Let_def split: sum.splits option.splits)
  then obtain res where "transform_try cfg fs code ident w = (res, called (ReadFileSync scriptPath) w)"
    by (cases "transform_try cfg fs code ident w") auto
  with assms(2) show "fsCalls (snd (transform cfg fs code ident w)) = fsCalls w @ [ReadFileSync scriptPath]"
    by (auto simp: transform_def split: sum.splits thrown.splits)
qed

text \<open>
  C8. When a \<open>resolveScriptPath\<close> override \<open>f\<close> is configured, resolution is \<open>f\<close> applied
  to the path on the file system as it is at that call, and the state is left as it is;
  no run changes the cache, and what the hook returns does not depend on what the cache
  holds. Every call of the hook on a component uses what \<open>f\<close> answers at that call: when
  \<open>f\<close> finds no script the hook returns \<open>null\<close> and does nothing; when \<open>f\<close> returns a
  path the hook reads that very file, and with the default transform returns the source
  merged with its content. The guarantee of the cache is one of the built-in resolver
  only: the override may answer differently the next time.
\<close>

theorem custom_resolver_bypasses_cache:
  assumes "custom_resolveScriptPath cfg = Some f"
  shows "resolveScriptPath cfg fs p w = (f fs p, w) \<and>
         scriptCache (run cfg invocations w) = scriptCache w \<and>
         fst (transform cfg fs code ident (w\<lparr>scriptCache := c\<rparr>)) = fst (transform cfg fs code ident w) \<and>
         (endsWith ident ''.vue'' \<and> (f fs ident = Inr None \<or> f fs ident = Inr (Some [])) \<longrightarrow>
            transform cfg fs code ident w = (Inr None, w)) \<and>
         (\<forall>scriptPath. endsWith ident ''.vue'' \<and> f fs ident = Inr (Some scriptPath) \<and> scriptPath \<noteq> [] \<longrightarrow>
            fsCalls (snd (transform cfg fs code ident w)) = fsCalls w @ [ReadFileSync scriptPath]) \<and>
         (\<forall>scriptPath scriptContent.
            endsWith ident ''.vue'' \<and> f fs ident = Inr (Some scriptPath) \<and> scriptPath \<noteq> [] \<and>
            readFileSync fs scriptPath = Inr scriptContent \<and> custom_transform cfg = None \<longrightarrow>
            transform cfg fs code ident w =
              (Inr (Some (defaultTransform code (commentOf cfg fs ident scriptPath) scriptContent)),
               called (ReadFileSync scriptPath) w))"
  using resolveScriptPath_custom[OF assms] run_custom_cache[OF assms]
    transform_custom_cache(2)[OF assms] transform_custom_none[OF assms]
    transform_custom_found[OF assms]
  by simp

theorem custom_resolver_bypasses_cache_witness:
  "custom_resolveScriptPath override_config = Some sample_override \<and>
   endsWith ''/proj/src/views/Foo.vue'' ''.vue'' \<and>
   sample_override bare_fs ''/proj/src/views/Foo.vue'' = Inr None \<and>
   sample_override sample_fs ''/proj/src/views/Foo.vue'' = Inr (Some ''/proj/src/scripts/Foo.js'') \<and>
   readFileSync sample_fs ''/proj/src/scripts/Foo.js'' = Inr ''const foo = 1'' \<and>
   custom_transform override_config = None \<and>
   transform override_config bare_fs ''<template><p/></template>'' ''/proj/src/views/Foo.vue''
     initial_world = (Inr None, initial_world) \<and>
   scriptCache
     (run override_config [(bare_fs, Transform ''<template><p/></template>'' ''/proj/src/views/Foo.vue'')]
        initial_world) = scriptCache initial_world \<and>
   resolveScriptPath override_config sample_fs ''/proj/src/views/Foo.vue''
     (run override_config [(bare_fs, Transform ''<template><p/></template>'' ''/proj/src/views/Foo.vue'')]
        initial_world) =
     (Inr (Some ''/proj/src/scripts/Foo.js''),
      run override_config [(bare_fs, Transform ''<template><p/></template>'' ''/proj/src/views/Foo.vue'')]
        initial_world) \<and>
   fst (transform override_config sample_fs ''<template><p/></template>'' ''/proj/src/views/Foo.vue''
          (run override_config
             [(bare_fs, Transform ''<template><p/></template>'' ''/proj/src/views/Foo.vue'')]
             initial_world)) =
     Inr (Some (''<template><p/></template>\<newline>\<newline><script setup>\<newline>''
                  @ ''// external script: ../scripts/Foo.js\<newline>const foo = 1\<newline></script>'')) \<and>
   fsCalls (snd (transform override_config sample_fs ''<template><p/></template>''
                   ''/proj/src/views/Foo.vue'' initial_world)) =
     [ReadFileSync ''/proj/src/scripts/Foo.js''] \<and>
   fst (transform override_config sample_fs ''<template><p/></template>'' ''/proj/src/views/Foo.vue''
          (initial_world\<lparr>scriptCache := [''/proj/src/views/Foo.vue'' \<mapsto> None]\<rparr>)) =
     fst (transform override_config sample_fs ''<template><p/></template>'' ''/proj/src/views/Foo.vue''
          initial_world)"
proof -
  let ?invs = "[(bare_fs, Transform ''<template><p/></template>'' ''/proj/src/views/Foo.vue'')]"
  let ?w = "run override_config ?invs initial_world"
  have h: "custom_resolveScriptPath override_config = Some sample_override"
    by (simp add: override_config_def)
  have v: "endsWith ''/proj/src/views/Foo.vue'' ''.vue''" by code_simp
  have a: "sample_override bare_fs ''/proj/src/views/Foo.vue'' = Inr None" by code_simp
  have b: "sample_override sample_fs ''/proj/src/views/Foo.vue'' = Inr (Some ''/proj/src/scripts/Foo.js'')"
    by code_simp
  have rd: "readFileSync sample_fs ''/proj/src/scripts/Foo.js'' = Inr ''const foo = 1''" by code_simp
  have ct: "custom_transform override_config = None"
    by (simp add: override_config_def sample_config_def)
  have ne: "''/proj/src/scripts/Foo.js'' \<noteq> []" by simp
  have e: "defaultTransform ''<template><p/></template>''
             (commentOf override_config sample_fs ''/proj/src/views/Foo.vue'' ''/proj/src/scripts/Foo.js'')
             ''const foo = 1'' =
           ''<template><p/></template>\<newline>\<newline><script setup>\<newline>''
             @ ''// external script: ../scripts/Foo.js\<newline>const foo = 1\<newline></script>''"
    by code_simp
  have f0: "fsCalls initial_world = []" by (simp add: initial_world_def)
  from custom_resolver_bypasses_cache[OF h, where fs = bare_fs and ident = "''/proj/src/views/Foo.vue''"
      and w = initial_world and invocations = ?invs and code = "''<template><p/></template>''"] v a
  have 1: "transform override_config bare_fs ''<template><p/></template>'' ''/proj/src/views/Foo.vue''
     initial_world = (Inr None, initial_world)"
    and 2: "scriptCache ?w = scriptCache initial_world"
    by simp_all
  from custom_resolver_bypasses_cache[OF h, where fs = sample_fs and p = "''/proj/src/views/Foo.vue''"
      and ident = "''/proj/src/views/Foo.vue''" and w = ?w and code = "''<template><p/></template>''"]
    v b ne rd ct e
  have 3: "resolveScriptPath override_config sample_fs ''/proj/src/views/Foo.vue'' ?w =
     (Inr (Some ''/proj/src/scripts/Foo.js''), ?w)"
    and 4: "fst (transform override_config sample_fs ''<template><p/></template>''
                   ''/proj/src/views/Foo.vue'' ?w) =
     Inr (Some (''<template><p/></template>\<newline>\<newline><script setup>\<newline>''
                  @ ''// external script: ../scripts/Foo.js\<newline>const foo = 1\<newline></script>''))"
    by simp_all
  from custom_resolver_bypasses_cache[OF h, where fs = sample_fs and w = initial_world
      and code = "''<template><p/></template>''" and ident = "''/proj/src/views/Foo.vue''"
      and c = "[''/proj/src/views/Foo.vue'' \<mapsto> None]"] v b ne f0
  have 5: "fsCalls (snd (transform override_config sample_fs ''<template><p/></template>''
                   ''/proj/src/views/Foo.vue'' initial_world)) =
     [ReadFileSync ''/proj/src/scripts/Foo.js'']"
    and 6: "fst (transform override_config sample_fs ''<template><p/></template>'' ''/proj/src/views/Foo.vue''
          (initial_world\<lparr>scriptCache := [''/proj/src/views/Foo.vue'' \<mapsto> None]\<rparr>)) =
     fst (transform override_config sample_fs ''<template><p/></template>'' ''/proj/src/views/Foo.vue''
          initial_world)"
    by simp_all
  from h v a b rd ct 1 2 3 4 5 6 show ?thesis by blast
qed

text \<open>
  C9. When the hook reaches the default transform (a component path, a script found and
  read, no \<open>transform\<close> override) and the expression of the branch taken does not match,
  the hook returns the source itself, a string and not \<open>null\<close>: that is so when the source
  has a \<open><script setup ...>\<close> open tag but no such tag is followed by \<open></script>\<close>, and
  when it has neither such an open tag nor \<open></template>\<close>.
\<close>

theorem transform_unmatched_pattern_keeps_source:
  assumes "endsWith ident ''.vue''"
    and "resolveScriptPath cfg fs ident w = (Inr (Some scriptPath), w1)"
    and "scriptPath \<noteq> []"
    and "readFileSync fs scriptPath = Inr scriptContent"
    and "custom_transform cfg = None"
    and "((\<exists>a t b. code = a @ t @ b \<and> is_open_tag t) \<and>
          \<not> (\<exists>a t b c. code = a @ t @ b @ ''</script>'' @ c \<and> is_open_tag t)) \<or>
         (\<not> (\<exists>a t b. code = a @ t @ b \<and> is_open_tag t) \<and>
          \<not> (\<exists>a b. code = a @ ''</template>'' @ b))"
  shows "fst (transform cfg fs code ident w) = Inr (Some code)"
proof -
  have "defaultTransform code comment scriptContent = code" for comment
    using assms(6)
  proof
    assume "(\<exists>a t b. code = a @ t @ b \<and> is_open_tag t) \<and>
          \<not> (\<exists>a t b c. code = a @ t @ b @ ''</script>'' @ c \<and> is_open_tag t)"
    then have "test_open_tag code" "find_block code = None"
      by (simp_all add: test_open_tag_iff find_block_None_iff)
    then show ?thesis by (simp add: defaultTransform_def replace_block_def)
  next
    assume "\<not> (\<exists>a t b. code = a @ t @ b \<and> is_open_tag t) \<and>
          \<not> (\<exists>a b. code = a @ ''</template>'' @ b)"
    then have "\<not> test_open_tag code" "find_sub ''</template>'' code = None"
      by (simp_all add: test_open_tag_iff find_sub_None_iff)
    then show ?thesis by (simp add: defaultTransform_def replace_def)
  qed
  with transform_returned[OF assms(1) transform_try_default[OF assms(2-5)], of code]
  show ?thesis by simp
qed

theorem transform_unmatched_pattern_keeps_source_witness:
  "(endsWith ''/proj/src/views/Foo.vue'' ''.vue'' \<and>
    fst (resolveScriptPath sample_config sample_fs ''/proj/src/views/Foo.vue'' initial_world) =
      Inr (Some ''/proj/src/scripts/Foo.js'') \<and>
    readFileSync sample_fs ''/proj/src/scripts/Foo.js'' = Inr ''const foo = 1'' \<and>
    custom_transform sample_config = None \<and>
    test_open_tag ''<template><p/></template><script setup>let n'' \<and>
    find_block ''<template><p/></template><script setup>let n'' = None \<and>
    \<not> test_open_tag ''<p>no closing tag</p>'' \<and>
    find_sub ''</template>'' ''<p>no closing tag</p>'' = None) \<and>
   fst (transform sample_config sample_fs ''<template><p/></template><script setup>let n''
          ''/proj/src/views/Foo.vue'' initial_world) =
     Inr (Some ''<template><p/></template><script setup>let n'') \<and>
   fst (transform sample_config sample_fs ''<p>no closing tag</p>'' ''/proj/src/views/Foo.vue''
          initial_world) =
     Inr (Some ''<p>no closing tag</p>'')"
proof -
  let ?w1 = "snd (resolveScriptPath sample_config sample_fs ''/proj/src/views/Foo.vue'' initial_world)"
  have 1: "endsWith ''/proj/src/views/Foo.vue'' ''.vue''" by code_simp
  have 2: "fst (resolveScriptPath sample_config sample_fs ''/proj/src/views/Foo.vue'' initial_world) =
      Inr (Some ''/proj/src/scripts/Foo.js'')" by code_simp
  then have r2: "resolveScriptPath sample_config sample_fs ''/proj/src/views/Foo.vue'' initial_world =
      (Inr (Some ''/proj/src/scripts/Foo.js''), ?w1)"
    by (simp add: prod_eq_iff)
  have 3: "''/proj/src/scripts/Foo.js'' \<noteq> []" by simp
  have 4: "readFileSync sample_fs ''/proj/src/scripts/Foo.js'' = Inr ''const foo = 1''" by code_simp
  have 5: "custom_transform sample_config = None" by (simp add: sample_config_def)
  have 6: "test_open_tag ''<template><p/></template><script setup>let n''" by code_simp
  have 7: "find_block ''<template><p/></template><script setup>let n'' = None" by code_simp
  have 8: "\<not> test_open_tag ''<p>no closing tag</p>''" by code_simp
  have 9: "find_sub ''</template>'' ''<p>no closing tag</p>'' = None" by code_simp
  have A: "((\<exists>a t b. ''<template><p/></template><script setup>let n'' = a @ t @ b \<and> is_open_tag t) \<and>
          \<not> (\<exists>a t b c. ''<template><p/></template><script setup>let n'' = a @ t @ b @ ''</script>'' @ c
                \<and> is_open_tag t)) \<or>
         (\<not> (\<exists>a t b. ''<template><p/></template><script setup>let n'' = a @ t @ b \<and> is_open_tag t) \<and>
          \<not> (\<exists>a b. ''<template><p/></template><script setup>let n'' = a @ ''</template>'' @ b))"
    using 6 7 unfolding test_open_tag_iff find_block_None_iff by blast
  have B: "((\<exists>a t b. ''<p>no closing tag</p>'' = a @ t @ b \<and> is_open_tag t) \<and>
          \<not> (\<exists>a t b c. ''<p>no closing tag</p>'' = a @ t @ b @ ''</script>'' @ c \<and> is_open_tag t)) \<or>
         (\<not> (\<exists>a t b. ''<p>no closing tag</p>'' = a @ t @ b \<and> is_open_tag t) \<and>
          \<not> (\<exists>a b. ''<p>no closing tag</p>'' = a @ ''</template>'' @ b))"
    using 8 9 unfolding test_open_tag_iff find_sub_None_iff by blast
  from transform_unmatched_pattern_keeps_source[OF 1 r2 3 4 5 A]
    transform_unmatched_pattern_keeps_source[OF 1 r2 3 4 5 B]
    1 2 4 5 6 7 8 9
  show ?thesis by blast
qed

text \<open>
  C2. In a search directory the resolver does not look at the order of
  \<open>config.extensions\<close>. With the extensions \<open>['.script.js', '.js']\<close> and the directory
  \<open>/proj/src/scripts\<close>, which lists \<open>Foo.js\<close> before \<open>Foo.script.js\<close>, the files found are
  in the order of the listing, and for \<open>Foo.vue\<close> the resolver returns \<open>Foo.js\<close>, the file
  with the later suffix.
\<close>

theorem search_directory_ignores_suffix_order:
  "extensions sample_config = [''.script.js'', ''.js''] \<and>
   searchDirOf sample_config ''scripts'' = ''/proj/src/scripts'' \<and>
   fst (findMatchingFiles sample_config sample_fs ''/proj/src/scripts'' (extensions sample_config) []
          initial_world) =
     [''/proj/src/scripts/Bar.js'', ''/proj/src/scripts/Foo.js'', ''/proj/src/scripts/Foo.script.js''] \<and>
   fst (createPathResolver sample_config sample_fs ''/proj/src/views/Foo.vue'' initial_world) =
     Some ''/proj/src/scripts/Foo.js''"
  by code_simp

text \<open>
  C4. Without a \<open><script setup ...>\<close> open tag the first \<open></template>\<close> is replaced by a
  replacement \<^emph>\<open>string\<close>, in which \<open>replace\<close> interprets dollar sequences. For the script
  content \<open>const unit = '$'\<close> the sequence \<open>$'\<close> becomes the text that follows
  \<open></template>\<close> in the source, here \<open><style></style>\<close>: the inserted block does not hold
  the script content as it is.
\<close>

theorem default_transform_dollar_sequence:
  "\<not> test_open_tag ''<template><p/></template><style></style>'' \<and>
   find_sub ''</template>'' ''<template><p/></template><style></style>'' =
     Some (''<template><p/>'', ''<style></style>'') \<and>
   defaultTransform ''<template><p/></template><style></style>'' ''// external script: Foo.js''
       (''const unit = '' @ [CHR 0x27, CHR ''$'', CHR 0x27]) =
     ''<template><p/>'' @ ''</template>\<newline>\<newline><script setup>\<newline>'' @ ''// external script: Foo.js''
       @ ''\<newline>'' @ (''const unit = '' @ [CHR 0x27] @ ''<style></style>'') @ ''\<newline></script>''
       @ ''<style></style>'' \<and>
   defaultTransform ''<template><p/></template><style></style>'' ''// external script: Foo.js''
       (''const unit = '' @ [CHR 0x27, CHR ''$'', CHR 0x27]) \<noteq>
     ''<template><p/>'' @ ''</template>\<newline>\<newline><script setup>\<newline>'' @ ''// external script: Foo.js''
       @ ''\<newline>'' @ (''const unit = '' @ [CHR 0x27, CHR ''$'', CHR 0x27]) @ ''\<newline></script>''
       @ ''<style></style>''"
  by code_simp

text \<open>
  Where neither the comment nor the script content holds a dollar sign, the new block is
  the closing template tag, two newlines, the opening tag, a newline, the comment, a
  newline, the script content, a newline and the closing script tag, in place of the
  first \<open></template>\<close>.
\<close>

lemma default_transform_new_block:
  assumes "\<not> test_open_tag code" and "find_sub ''</template>'' code = Some (pre, post)"
    and "CHR ''$'' \<notin> set comment" and "CHR ''$'' \<notin> set scriptContent"
  shows "defaultTransform code comment scriptContent =
     pre @ ''</template>\<newline>\<newline><script setup>\<newline>'' @ comment @ ''\<newline>'' @ scriptContent
       @ ''\<newline></script>'' @ post"
proof -
  have "CHR ''$'' \<notin> set (''</template>\<newline>\<newline><script setup>\<newline>'' @ comment @ ''\<newline>'' @ scriptContent
       @ ''\<newline></script>'')"
    using assms(3,4) by simp
  from GetSubstitution_no_dollar[OF this] assms(1,2) show ?thesis
    by (simp add: defaultTransform_def replace_def)
qed

lemma transform_applies_default:
  assumes "endsWith ident ''.vue''"
    and "resolveScriptPath cfg fs ident w = (Inr (Some scriptPath), w1)"
    and "scriptPath \<noteq> []"
    and "readFileSync fs scriptPath = Inr scriptContent"
    and "custom_transform cfg = None"
  shows "transform cfg fs code ident w =
    (Inr (Some (defaultTransform code (commentOf cfg fs ident scriptPath) scriptContent)),
     called (ReadFileSync scriptPath) w1)"
  by (rule transform_returned[OF assms(1) transform_try_default[OF assms(2-5)]])

lemma transform_null_cases:
  assumes "endsWith ident ''.vue''" and "custom_transform cfg = None"
  shows "fst (transform cfg fs code ident w) = Inr None \<longleftrightarrow>
     (fst (resolveScriptPath cfg fs ident w) = Inr None \<or>
      fst (resolveScriptPath cfg fs ident w) = Inr (Some []) \<or>
      (\<exists>error. fst (transform_try cfg fs code ident w) = Inl (ThrownObject error)))"
  using assms
  by (auto simp: transform_def transform_try_def Let_def
      split: prod.splits sum.splits option.splits if_splits thrown.splits)

lemma searchLoop_first_match:
  assumes "existsSync fs (searchDirOf cfg scriptPath)"
    and "findMatchingFiles cfg fs (searchDirOf cfg scriptPath) (extensions cfg) []
           (called (ExistsSync (searchDirOf cfg scriptPath)) w) = (files, w2)"
    and "find (matches b) files = Some found"
  shows "fst (searchLoop cfg fs P b (scriptPath # rest) w) = Some found"
  using assms by (simp add: Let_def)

section \<open>The packaging script, and the cache on a stable file system\<close>

lemma build_js_writes: "list_ex writes (build_js fs dirname typesContent)"
  by (simp add: build_js_def Let_def)

text \<open>
  On a file system that does not change, the cache never holds an entry that the
  same-directory rule contradicts.
\<close>

lemma sameDirLoop_result:
  "fst (sameDirLoop cfg fs P d b exts w) =
     map_option (\<lambda>e. path_join [d, b @ e]) (find (\<lambda>e. existsSync fs (path_join [d, b @ e])) exts)"
  by (induction exts arbitrary: w) (simp_all add: Let_def)

lemma createPathResolver_same_dir_result:
  assumes "useSameDir cfg" and "scriptCache w P = None"
    and "find (\<lambda>e. existsSync fs (sameDirPathOf P e)) (extensions cfg) = Some e"
  shows "fst (createPathResolver cfg fs P w) = Some (sameDirPathOf P e)"
proof -
  let ?s = "sameDirLoop cfg fs P (path_dirname P) (path_basename P ''.vue'') (extensions cfg) w"
  from assms(3) have "fst ?s = Some (sameDirPathOf P e)"
    unfolding sameDirLoop_result sameDirPathOf_def by simp
  then obtain w1 where "?s = (Some (sameDirPathOf P e), w1)" by (cases ?s) auto
  then show ?thesis
    using assms(1,2) unfolding createPathResolver_def Let_def by simp
qed

lemma createPathResolver_cache_after:
  "scriptCache (snd (createPathResolver cfg fs P w)) =
     (case scriptCache w P of
        None \<Rightarrow> (scriptCache w)(P \<mapsto> fst (createPathResolver cfg fs P w))
      | Some cached \<Rightarrow> scriptCache w)"
proof (cases "scriptCache w P")
  case None
  obtain r w' where r: "createPathResolver cfg fs P w = (r, w')"
    by (cases "createPathResolver cfg fs P w")
  from createPathResolver_miss(1)[OF None r] None r show ?thesis by simp
next
  case (Some cached)
  then show ?thesis by (simp add: createPathResolver_hit)
qed

lemma resolveScriptPath_cache_after:
  "scriptCache (snd (resolveScriptPath cfg fs P w)) = scriptCache w \<or>
   scriptCache (snd (resolveScriptPath cfg fs P w)) = scriptCache (snd (createPathResolver cfg fs P w))"
  by (auto simp: resolveScriptPath_def split: option.splits prod.splits)

lemma transform_cache_after:
  "scriptCache (snd (transform cfg fs code P w)) = scriptCache w \<or>
   scriptCache (snd (transform cfg fs code P w)) = scriptCache (snd (createPathResolver cfg fs P w))"
proof -
  have "scriptCache (snd (transform_try cfg fs code P w)) = scriptCache (snd (resolveScriptPath cfg fs P w))"
    using transform_try_world[of cfg fs code P w] by auto
  moreover have "scriptCache (snd (transform cfg fs code P w)) = scriptCache w \<or>
    scriptCache (snd (transform cfg fs code P w)) = scriptCache (snd (transform_try cfg fs code P w))"
    using transform_world[of cfg fs code P w] by auto
  ultimately show ?thesis using resolveScriptPath_cache_after[of cfg fs P w] by auto
qed

lemma createPathResolver_cache_agrees:
  assumes "useSameDir cfg" and "cache_agrees cfg fs w"
  shows "cache_agrees cfg fs (snd (createPathResolver cfg fs P w))"
proof (cases "scriptCache w P")
  case None
  show ?thesis
    unfolding cache_agrees_def createPathResolver_cache_after None option.case
  proof (intro allI impI, elim conjE)
    fix Q r e
    assume 1: "((scriptCache w)(P \<mapsto> fst (createPathResolver cfg fs P w))) Q = Some r"
      and 2: "find (\<lambda>e. existsSync fs (sameDirPathOf Q e)) (extensions cfg) = Some e"
    show "r = Some (sameDirPathOf Q e)"
    proof (cases "Q = P")
      case True
      with 1 have "r = fst (createPathResolver cfg fs P w)" by simp
      with createPathResolver_same_dir_result[OF assms(1) None] 2 True show ?thesis by simp
    next
      case False
      with 1 have "scriptCache w Q = Some r" by simp
      with assms(2) 2 show ?thesis unfolding cache_agrees_def by blast
    qed
  qed
next
  case (Some cached)
  with assms(2) show ?thesis by (simp add: createPathResolver_hit)
qed

lemma cache_agrees_cong:
  "scriptCache w' = scriptCache w \<Longrightarrow> cache_agrees cfg fs w \<Longrightarrow> cache_agrees cfg fs w'"
  by (simp add: cache_agrees_def)

lemma invoke_cache_agrees:
  assumes "useSameDir cfg" and "cache_agrees cfg fs w"
  shows "cache_agrees cfg fs (invoke cfg (fs, i) w)"
proof (cases i)
  case (Resolve p)
  from resolveScriptPath_cache_after[of cfg fs p w]
    createPathResolver_cache_agrees[OF assms, of p] assms(2)
  show ?thesis unfolding Resolve by (auto intro: cache_agrees_cong)
next
  case (Transform code p)
  from transform_cache_after[of cfg fs code p w]
    createPathResolver_cache_agrees[OF assms, of p] assms(2)
  show ?thesis unfolding Transform by (auto intro: cache_agrees_cong)
qed

lemma run_cache_agrees:
  assumes "useSameDir cfg" and "cache_agrees cfg fs w"
  shows "cache_agrees cfg fs (run cfg (map (Pair fs) invocations) w)"
  using assms(2) unfolding run_def
  by (induction invocations arbitrary: w) (simp_all add: invoke_cache_agrees[OF assms(1)])

lemma same_directory_script_on_stable_file_system:
  assumes "useSameDir cfg"
    and "find (\<lambda>e. existsSync fs (sameDirPathOf P e)) (extensions cfg) = Some e"
  shows "fst (createPathResolver cfg fs P (run cfg (map (Pair fs) invocations) initial_world)) =
           Some (sameDirPathOf P e)"
proof -
  let ?w = "run cfg (map (Pair fs) invocations) initial_world"
  have "cache_agrees cfg fs initial_world"
    by (simp add: cache_agrees_def initial_world_def)
  then have a: "cache_agrees cfg fs ?w" by (rule run_cache_agrees[OF assms(1)])
  show ?thesis
  proof (cases "scriptCache ?w P")
    case None
    from createPathResolver_same_dir_result[OF assms(1) None assms(2)] show ?thesis .
  next
    case (Some r)
    with a assms(2) have "r = Some (sameDirPathOf P e)" unfolding cache_agrees_def by blast
    with Some show ?thesis by (simp add: createPathResolver_hit)
  qed
qed

end
